theory Spec2Isabelle
  imports Complex_Main
begin

section \<open>Parallel WaveGAN training script: batch construction and training loop\<close>

text \<open>
  A shallow embedding of \<^verbatim>\<open>parallel_wavegan/bin/train.py\<close>: the class
  \<^verbatim>\<open>CustomCollater\<close> (construction, the per-item cropping loop of
  \<^verbatim>\<open>__call__\<close>, padding and tensor assembly) and the loop of
  \<^verbatim>\<open>main\<close>. Python integers are \<open>int\<close>; lengths of sequences are \<open>nat\<close>
  and are converted where the code mixes them with configuration values. Every
  \<^verbatim>\<open>assert\<close> and every exception the code can raise is a value \<open>Inl e\<close>.
\<close>

subsection \<open>Errors\<close>

datatype error = AssertionError | ValueError | ZeroDivisionError

subsection \<open>Arrays\<close>

text \<open>
  A one-dimensional array is a list. A two-dimensional array of shape \<open>(n, d)\<close> is
  a list of \<open>n\<close> rows together with its number of columns \<open>d\<close>, which numpy keeps
  even when \<open>n = 0\<close>; \<^verbatim>\<open>len\<close> of it is the number of rows. A three-dimensional
  tensor carries its shape and its entries as nested lists. The element type
  stands for the float samples; the conversion to \<^verbatim>\<open>float32\<close> is not modelled.
\<close>

record 'a ndarray2 =
  ncols :: nat
  rows :: "'a list list"

record 'a tensor3 =
  dims :: "nat \<times> nat \<times> nat"
  vals :: "'a list list list"

definition len2 :: "'a ndarray2 \<Rightarrow> nat" where
  "len2 c = length (rows c)"

definition shape2 :: "'a ndarray2 \<Rightarrow> nat \<times> nat" where
  "shape2 c = (length (rows c), ncols c)"

text \<open>
  Python's \<^verbatim>\<open>a[i:j]\<close> (step 1), for lists and for the first axis of numpy
  arrays: a negative bound counts from the end, and both bounds are clamped to
  the sequence.
\<close>

definition slice_index :: "nat \<Rightarrow> int \<Rightarrow> nat" where
  "slice_index n i = (if i < 0 then nat (max 0 (i + int n)) else min n (nat i))"

definition py_slice :: "'a list \<Rightarrow> int \<Rightarrow> int \<Rightarrow> 'a list" where
  "py_slice xs i j =
     (let lo = slice_index (length xs) i; hi = slice_index (length xs) j
      in take (hi - lo) (drop lo xs))"

definition slice2 :: "'a ndarray2 \<Rightarrow> int \<Rightarrow> int \<Rightarrow> 'a ndarray2" where
  "slice2 c i j = c\<lparr>rows := py_slice (rows c) i j\<rparr>"

subsection \<open>Random sources\<close>

text \<open>
  The global random state of numpy and torch is an explicit value that is passed
  and returned: an endless supply of raw draws for \<^verbatim>\<open>np.random.randint\<close>
  and one of values for \<^verbatim>\<open>torch.randn\<close>. \<^verbatim>\<open>randint(low, high)\<close>
  raises \<^verbatim>\<open>ValueError\<close> when \<open>low \<ge> high\<close> and otherwise returns a value of
  the half-open interval; every value of the interval is the result for some
  draw. (numpy's additional range check against the bounds of a 64-bit integer
  is not modelled.)
\<close>

record 'a rng =
  int_src :: "nat \<Rightarrow> nat"
  normal_src :: "nat \<Rightarrow> 'a"

definition randint :: "int \<Rightarrow> int \<Rightarrow> 'a rng \<Rightarrow> error + (int \<times> 'a rng)" where
  "randint low high g =
     (if low \<ge> high then Inl ValueError
      else Inr (low + int (int_src g 0) mod (high - low),
                g\<lparr>int_src := (\<lambda>i. int_src g (Suc i))\<rparr>))"

subsection \<open>The collater\<close>

record collater =
  batch_max_steps :: int
  batch_max_frames :: int
  hop_size :: int
  aux_context_window :: int

text \<open>
  \<^verbatim>\<open>CustomCollater.__init__\<close> (lines 31--38). Python's \<^verbatim>\<open>%\<close> and
  \<^verbatim>\<open>//\<close> on integers are floor modulus and floor division, as \<open>mod\<close> and
  \<open>div\<close> on \<open>int\<close> are; both raise \<^verbatim>\<open>ZeroDivisionError\<close> on a zero divisor.
\<close>

definition collater_init :: "int \<Rightarrow> int \<Rightarrow> int \<Rightarrow> error + collater" where
  "collater_init bms hop cw =
     (if hop = 0 then Inl ZeroDivisionError
      else
        let bms' = (if bms mod hop \<noteq> 0 then bms + - (bms mod hop) else bms)
        in if bms' mod hop \<noteq> 0 then Inl AssertionError
           else Inr \<lparr>batch_max_steps = bms', batch_max_frames = bms' div hop,
                     hop_size = hop, aux_context_window = cw\<rparr>)"

text \<open>\<^verbatim>\<open>_assert_ready_for_upsampling\<close> (lines 90--92).\<close>

definition assert_ready_for_upsampling ::
  "'a list \<Rightarrow> 'a ndarray2 \<Rightarrow> int \<Rightarrow> int \<Rightarrow> error + unit" where
  "assert_ready_for_upsampling x c hop context_window =
     (if int (length x) = (int (len2 c) - 2 * context_window) * hop
      then Inr () else Inl AssertionError)"

text \<open>
  The body of the loop over the batch (lines 56--67), the Sample Aligner of the
  specification: one pair in, one pair out, with the random state.
\<close>

definition align ::
  "collater \<Rightarrow> 'a list \<times> 'a ndarray2 \<Rightarrow> 'a rng \<Rightarrow>
     error + (('a list \<times> 'a ndarray2) \<times> 'a rng)" where
  "align col xc g =
     (case xc of (x, c) \<Rightarrow>
        (case assert_ready_for_upsampling x c (hop_size col) 0 of
           Inl e \<Rightarrow> Inl e
         | Inr _ \<Rightarrow>
             if int (length x) > batch_max_steps col then
               (let interval_start = aux_context_window col;
                    interval_end = int (len2 c) - batch_max_frames col - aux_context_window col
                in case randint interval_start interval_end g of
                     Inl e \<Rightarrow> Inl e
                   | Inr (start_frame, g') \<Rightarrow>
                       (let start_step = start_frame * hop_size col;
                            x' = py_slice x start_step (start_step + batch_max_steps col);
                            c' = slice2 c (start_frame - aux_context_window col)
                                   (start_frame + aux_context_window col + batch_max_frames col)
                        in case assert_ready_for_upsampling x' c' (hop_size col)
                                  (aux_context_window col) of
                             Inl e \<Rightarrow> Inl e
                           | Inr _ \<Rightarrow> Inr ((x', c'), g')))
             else Inr ((x, c), g)))"

fun align_batch ::
  "collater \<Rightarrow> ('a list \<times> 'a ndarray2) list \<Rightarrow> 'a rng \<Rightarrow>
     error + (('a list \<times> 'a ndarray2) list \<times> 'a rng)" where
  "align_batch col [] g = Inr ([], g)"
| "align_batch col (xc # batch) g =
     (case align col xc g of
        Inl e \<Rightarrow> Inl e
      | Inr (xc', g') \<Rightarrow>
          (case align_batch col batch g' of
             Inl e \<Rightarrow> Inl e
           | Inr (new_batch, g'') \<Rightarrow> Inr (xc' # new_batch, g'')))"

subsection \<open>Padding and tensor assembly\<close>

text \<open>
  \<^verbatim>\<open>_pad_2darray\<close> (lines 94--97): \<^verbatim>\<open>np.pad\<close> along the first axis, with
  \<open>b_pad\<close> rows before and \<open>max_len - len(x) - b_pad\<close> rows after; a negative pad
  width raises \<^verbatim>\<open>ValueError\<close>.
\<close>

definition pad_2darray :: "'a ndarray2 \<Rightarrow> int \<Rightarrow> int \<Rightarrow> 'a \<Rightarrow> error + 'a ndarray2" where
  "pad_2darray x max_len b_pad constant_values =
     (let after = max_len - int (len2 x) - b_pad;
          filler = replicate (ncols x) constant_values
      in if b_pad < 0 \<or> after < 0 then Inl ValueError
         else Inr (x\<lparr>rows := replicate (nat b_pad) filler @ rows x @ replicate (nat after) filler\<rparr>))"

text \<open>\<^verbatim>\<open>x.reshape(-1, 1)\<close> on a one-dimensional array.\<close>

definition reshape_col :: "'a list \<Rightarrow> 'a ndarray2" where
  "reshape_col x = \<lparr>ncols = 1, rows = map (\<lambda>v. [v]) x\<rparr>"

text \<open>\<^verbatim>\<open>max\<close> of a list of lengths: \<^verbatim>\<open>ValueError\<close> on the empty list.\<close>

fun py_max :: "nat list \<Rightarrow> error + nat" where
  "py_max [] = Inl ValueError"
| "py_max (v # vs) = Inr (fold max vs v)"

text \<open>A list comprehension whose body can raise: the first error wins.\<close>

fun map_result :: "('a \<Rightarrow> error + 'b) \<Rightarrow> 'a list \<Rightarrow> error + 'b list" where
  "map_result f [] = Inr []"
| "map_result f (a # as) =
     (case f a of
        Inl e \<Rightarrow> Inl e
      | Inr b \<Rightarrow> (case map_result f as of Inl e \<Rightarrow> Inl e | Inr bs \<Rightarrow> Inr (b # bs)))"

text \<open>
  \<^verbatim>\<open>np.array([...], dtype=np.float32)\<close> on a list of two-dimensional arrays:
  arrays of one shape are stacked along a new first axis, arrays of different
  shapes raise \<^verbatim>\<open>ValueError\<close>. The empty list is never passed: \<^verbatim>\<open>max\<close> has
  raised at line 72 before.
\<close>

definition np_array :: "'a ndarray2 list \<Rightarrow> error + 'a tensor3" where
  "np_array as =
     (case as of
        [] \<Rightarrow> Inl ValueError
      | a # _ \<Rightarrow>
          if list_all (\<lambda>b. shape2 b = shape2 a) as
          then Inr \<lparr>dims = (length as, len2 a, ncols a), vals = map rows as\<rparr>
          else Inl ValueError)"

text \<open>\<^verbatim>\<open>.transpose(2, 1)\<close>: the last two axes are exchanged.\<close>

definition transpose21 :: "'a tensor3 \<Rightarrow> 'a tensor3" where
  "transpose21 t =
     (case dims t of (b, n, d) \<Rightarrow>
        \<lparr>dims = (b, d, n),
         vals = map (\<lambda>m. map (\<lambda>j. map (\<lambda>r. r ! j) m) [0..<d]) (vals t)\<rparr>)"

text \<open>\<^verbatim>\<open>torch.randn(size)\<close>: a tensor of the given shape, filled from the source.\<close>

definition randn :: "nat \<times> nat \<times> nat \<Rightarrow> 'a rng \<Rightarrow> 'a tensor3 \<times> 'a rng" where
  "randn sz g =
     (case sz of (b, n, d) \<Rightarrow>
        (\<lparr>dims = sz,
          vals = map (\<lambda>i. map (\<lambda>j. map (\<lambda>k. normal_src g ((i * n + j) * d + k)) [0..<d])
                     [0..<n]) [0..<b]\<rparr>,
         g\<lparr>normal_src := (\<lambda>i. normal_src g (b * n * d + i))\<rparr>))"

text \<open>
  \<^verbatim>\<open>CustomCollater.__call__\<close> (lines 53--88). The result is the noise, the
  conditioning features, the target signal and the input lengths, with the
  random state after the call.
\<close>

definition call ::
  "collater \<Rightarrow> ('a::zero list \<times> 'a ndarray2) list \<Rightarrow> 'a rng \<Rightarrow>
     error + ('a tensor3 \<times> 'a tensor3 \<times> 'a tensor3 \<times> nat list \<times> 'a rng)" where
  "call col batch g =
     (case align_batch col batch g of
        Inl e \<Rightarrow> Inl e
      | Inr (new_batch, g') \<Rightarrow>
          (let xlens = map (\<lambda>b. length (fst b)) new_batch
           in case py_max xlens of
                Inl e \<Rightarrow> Inl e
              | Inr max_olen \<Rightarrow>
                  (case map_result (\<lambda>b. pad_2darray (reshape_col (fst b)) (int max_olen) 0 0)
                          new_batch of
                     Inl e \<Rightarrow> Inl e
                   | Inr ys \<Rightarrow>
                       (case np_array ys of
                          Inl e \<Rightarrow> Inl e
                        | Inr y3 \<Rightarrow>
                            (let y_batch = transpose21 y3;
                                 clens = map (\<lambda>b. len2 (snd b)) new_batch
                             in case py_max clens of
                                  Inl e \<Rightarrow> Inl e
                                | Inr max_clen \<Rightarrow>
                                    (case map_result
                                            (\<lambda>b. pad_2darray (snd b) (int max_clen) 0 0)
                                            new_batch of
                                       Inl e \<Rightarrow> Inl e
                                     | Inr cs \<Rightarrow>
                                         (case np_array cs of
                                            Inl e \<Rightarrow> Inl e
                                          | Inr c3 \<Rightarrow>
                                              (let c_batch = transpose21 c3;
                                                   (z_batch, g'') = randn (dims y_batch) g';
                                                   input_lengths = xlens
                                               in Inr (z_batch, c_batch, y_batch,
                                                       input_lengths, g'')))))))))"

subsection \<open>The training loop\<close>

text \<open>
  The networks, the losses, the optimizers and the schedulers are not part of
  this file of the repository; \<^verbatim>\<open>main\<close> uses them through their interfaces
  only. They are parameters of the model: \<open>'p\<close> is a collection of parameter
  tensors (the parameters of a network, or their gradients), \<open>'o\<close> the state of
  an optimizer together with its learning-rate scheduler.
\<close>

record ('p, 'o) network =
  params :: 'p
  grads :: 'p
  optim :: 'o

record ('a, 'p, 'o) collaborators =
  model_g :: "'p \<Rightarrow> 'a tensor3 \<Rightarrow> 'a tensor3 \<Rightarrow> 'a tensor3"
  grad_loss_g :: "real \<Rightarrow> 'p \<Rightarrow> 'p \<Rightarrow> 'a tensor3 \<Rightarrow> 'a tensor3 \<Rightarrow> 'a tensor3 \<Rightarrow> 'p \<times> 'p"
  grad_loss_d :: "'p \<Rightarrow> 'a tensor3 \<Rightarrow> 'a tensor3 \<Rightarrow> 'p"
  zero_grad :: "'p \<Rightarrow> 'p"
  accumulate :: "'p \<Rightarrow> 'p \<Rightarrow> 'p"
  clip_grad_norm :: "real \<Rightarrow> 'p \<Rightarrow> 'p"
  optimizer_step :: "'p \<Rightarrow> 'p \<Rightarrow> 'o \<Rightarrow> 'p \<times> 'o"
  schedular_step :: "'o \<Rightarrow> 'o"

text \<open>
  \<open>model_g\<close> is the generator's forward pass. \<open>grad_loss_g lambda_adv \<theta>g \<theta>d z c y\<close>
  is what \<^verbatim>\<open>loss_g.backward()\<close> adds to the gradients of the generator and of
  the discriminator (the loss of lines 169--174 depends on both networks);
  \<open>grad_loss_d \<theta>d y y_fake\<close> is what \<^verbatim>\<open>loss_d.backward()\<close> adds to the gradients
  of the discriminator, the generated signal \<open>y_fake\<close> being detached (lines
  183--187); \<open>y_fake\<close> is the \<^verbatim>\<open>y_\<close> of the source. Forward passes do not
  change a network.
\<close>

record config =
  config_batch_max_steps :: int
  config_hop_size :: int
  config_aux_context_window :: int
  config_lambda_adv :: real
  config_grad_norm :: real
  config_discriminator_start_iter :: int
  config_iters :: int

record ('a, 'p, 'o) trainer =
  gen :: "('p, 'o) network"
  disc :: "('p, 'o) network"
  rand :: "'a rng"

text \<open>Lines 169--180: the generator's update. It returns the generated signal too.\<close>

definition generator_phase ::
  "('a, 'p, 'o) collaborators \<Rightarrow> config \<Rightarrow> 'a tensor3 \<times> 'a tensor3 \<times> 'a tensor3 \<Rightarrow>
     ('a, 'p, 'o) trainer \<Rightarrow> 'a tensor3 \<times> ('a, 'p, 'o) trainer" where
  "generator_phase ops cfg zcy st =
     (case zcy of (z, c, y) \<Rightarrow>
        (let y_fake = model_g ops (params (gen st)) z c;
             (dg, dd) = grad_loss_g ops (config_lambda_adv cfg) (params (gen st))
                          (params (disc st)) z c y;
             g0 = zero_grad ops (grads (gen st));
             g1 = accumulate ops g0 dg;
             d1 = accumulate ops (grads (disc st)) dd;
             g2 = (if config_grad_norm cfg > 0 then clip_grad_norm ops (config_grad_norm cfg) g1
                   else g1);
             (p', o') = optimizer_step ops (params (gen st)) g2 (optim (gen st));
             o'' = schedular_step ops o'
         in (y_fake, st\<lparr>gen := \<lparr>params = p', grads = g2, optim = o''\<rparr>,
                     disc := (disc st)\<lparr>grads := d1\<rparr>\<rparr>)))"

text \<open>Lines 183--193: the discriminator's update.\<close>

definition discriminator_phase ::
  "('a, 'p, 'o) collaborators \<Rightarrow> config \<Rightarrow> 'a tensor3 \<Rightarrow> 'a tensor3 \<Rightarrow>
     ('a, 'p, 'o) trainer \<Rightarrow> ('a, 'p, 'o) trainer" where
  "discriminator_phase ops cfg y y_fake st =
     (let dd = grad_loss_d ops (params (disc st)) y y_fake;
          d0 = zero_grad ops (grads (disc st));
          d1 = accumulate ops d0 dd;
          d2 = (if config_grad_norm cfg > 0 then clip_grad_norm ops (config_grad_norm cfg) d1
                else d1);
          (p', o') = optimizer_step ops (params (disc st)) d2 (optim (disc st));
          o'' = schedular_step ops o'
      in st\<lparr>disc := \<lparr>params = p', grads = d2, optim = o''\<rparr>\<rparr>)"

text \<open>Lines 169--193: the body of the loop over the batches of one pass.\<close>

definition train_step ::
  "('a, 'p, 'o) collaborators \<Rightarrow> config \<Rightarrow> nat \<Rightarrow> 'a tensor3 \<times> 'a tensor3 \<times> 'a tensor3 \<Rightarrow>
     ('a, 'p, 'o) trainer \<Rightarrow> ('a, 'p, 'o) trainer" where
  "train_step ops cfg global_steps zcy st =
     (case generator_phase ops cfg zcy st of (y_fake, st1) \<Rightarrow>
        if int global_steps > config_discriminator_start_iter cfg
        then discriminator_phase ops cfg (snd (snd zcy)) y_fake st1
        else st1)"

text \<open>
  Line 168: one pass over the data loader. The loader hands each group of pairs
  to the collater and yields its result; an exception of the collater ends the
  run. The result is the error, if any, and the state reached.
\<close>

fun train_pass ::
  "('a::zero, 'p, 'o) collaborators \<Rightarrow> config \<Rightarrow> collater \<Rightarrow> nat \<Rightarrow>
     ('a list \<times> 'a ndarray2) list list \<Rightarrow> ('a, 'p, 'o) trainer \<Rightarrow>
     error option \<times> ('a, 'p, 'o) trainer" where
  "train_pass ops cfg col global_steps [] st = (None, st)"
| "train_pass ops cfg col global_steps (batch # batches) st =
     (case call col batch (rand st) of
        Inl e \<Rightarrow> (Some e, st)
      | Inr (z, c, y, input_lengths, g') \<Rightarrow>
          train_pass ops cfg col global_steps batches
            (train_step ops cfg global_steps (z, c, y) (st\<lparr>rand := g'\<rparr>)))"

text \<open>
  Lines 167--197: \<^verbatim>\<open>while True\<close>. The data loader shuffles, so each pass has
  its own grouping of the training set: \<open>data_loader k\<close> is the one of the pass
  made with \<open>global_steps = k\<close>.
\<close>

function train_loop ::
  "('a::zero, 'p, 'o) collaborators \<Rightarrow> config \<Rightarrow> collater \<Rightarrow>
     (nat \<Rightarrow> ('a list \<times> 'a ndarray2) list list) \<Rightarrow> nat \<Rightarrow> ('a, 'p, 'o) trainer \<Rightarrow>
     error option \<times> nat \<times> ('a, 'p, 'o) trainer" where
  "train_loop ops cfg col data_loader global_steps st =
     (case train_pass ops cfg col global_steps (data_loader global_steps) st of
        (Some e, st') \<Rightarrow> (Some e, global_steps, st')
      | (None, st') \<Rightarrow>
          if int (global_steps + 1) \<ge> config_iters cfg then (None, global_steps + 1, st')
          else train_loop ops cfg col data_loader (global_steps + 1) st')"
  by pat_completeness auto
termination
  by (relation "measure (\<lambda>(ops, cfg, col, data_loader, global_steps, st).
                   nat (config_iters cfg - int global_steps))") auto

declare train_loop.simps [simp del]

text \<open>
  \<^verbatim>\<open>main\<close> (lines 123--128 and 162--197): the collater is built from the
  configuration, \<open>global_steps\<close> starts at 0.
\<close>

definition main ::
  "('a::zero, 'p, 'o) collaborators \<Rightarrow> config \<Rightarrow>
     (nat \<Rightarrow> ('a list \<times> 'a ndarray2) list list) \<Rightarrow> ('a, 'p, 'o) trainer \<Rightarrow>
     error option \<times> nat \<times> ('a, 'p, 'o) trainer" where
  "main ops cfg data_loader st =
     (case collater_init (config_batch_max_steps cfg) (config_hop_size cfg)
             (config_aux_context_window cfg) of
        Inl e \<Rightarrow> (Some e, 0, st)
      | Inr col \<Rightarrow> train_loop ops cfg col data_loader 0 st)"

subsection \<open>Padding as the specification words it\<close>

text \<open>
  The specification's padding: a sequence is extended on the trailing side with
  zeros up to a given length. This definition follows the specification and is
  compared with what \<open>call\<close> assembles.
\<close>

definition padded_audio :: "nat \<Rightarrow> 'a::zero list \<Rightarrow> 'a list" where
  "padded_audio m x = x @ replicate (m - length x) 0"

subsection \<open>The loop as the specification words it\<close>

text \<open>
  The specification's state machine: a number of passes is made one after the
  other, the counter going up by one after each; an error ends the run. This
  definition follows the specification and is compared with \<open>train_loop\<close>.
\<close>

fun spec_passes ::
  "('a::zero, 'p, 'o) collaborators \<Rightarrow> config \<Rightarrow> collater \<Rightarrow>
     (nat \<Rightarrow> ('a list \<times> 'a ndarray2) list list) \<Rightarrow> nat \<Rightarrow> nat \<Rightarrow> ('a, 'p, 'o) trainer \<Rightarrow>
     error option \<times> nat \<times> ('a, 'p, 'o) trainer" where
  "spec_passes ops cfg col data_loader 0 global_steps st = (None, global_steps, st)"
| "spec_passes ops cfg col data_loader (Suc n) global_steps st =
     (case train_pass ops cfg col global_steps (data_loader global_steps) st of
        (Some e, st') \<Rightarrow> (Some e, global_steps, st')
      | (None, st') \<Rightarrow> spec_passes ops cfg col data_loader n (Suc global_steps) st')"

subsection \<open>The discriminator's schedule as the specification words it\<close>

text \<open>
  A run in which a schedule says, pass by pass, whether the discriminator is
  updated: in a pass for which the schedule holds every iteration runs the
  generator's update and then the discriminator's, in any other pass every
  iteration runs the generator's update only. The passes are made one after
  the other, pass \<open>k\<close> over \<open>data_loader k\<close>, and an error ends the run. These
  definitions follow the specification's scenarios and are compared with
  \<open>main\<close>.
\<close>

definition scheduled_step ::
  "('a, 'p, 'o) collaborators \<Rightarrow> config \<Rightarrow> bool \<Rightarrow> 'a tensor3 \<times> 'a tensor3 \<times> 'a tensor3 \<Rightarrow>
     ('a, 'p, 'o) trainer \<Rightarrow> ('a, 'p, 'o) trainer" where
  "scheduled_step ops cfg active zcy st =
     (if active
      then discriminator_phase ops cfg (snd (snd zcy)) (fst (generator_phase ops cfg zcy st))
             (snd (generator_phase ops cfg zcy st))
      else snd (generator_phase ops cfg zcy st))"

fun scheduled_pass ::
  "('a::zero, 'p, 'o) collaborators \<Rightarrow> config \<Rightarrow> collater \<Rightarrow> bool \<Rightarrow>
     ('a list \<times> 'a ndarray2) list list \<Rightarrow> ('a, 'p, 'o) trainer \<Rightarrow>
     error option \<times> ('a, 'p, 'o) trainer" where
  "scheduled_pass ops cfg col active [] st = (None, st)"
| "scheduled_pass ops cfg col active (batch # batches) st =
     (case call col batch (rand st) of
        Inl e \<Rightarrow> (Some e, st)
      | Inr (z, c, y, input_lengths, g') \<Rightarrow>
          scheduled_pass ops cfg col active batches
            (scheduled_step ops cfg active (z, c, y) (st\<lparr>rand := g'\<rparr>)))"

fun scheduled_passes ::
  "('a::zero, 'p, 'o) collaborators \<Rightarrow> config \<Rightarrow> collater \<Rightarrow>
     (nat \<Rightarrow> ('a list \<times> 'a ndarray2) list list) \<Rightarrow> (nat \<Rightarrow> bool) \<Rightarrow> nat \<Rightarrow> nat \<Rightarrow>
     ('a, 'p, 'o) trainer \<Rightarrow> error option \<times> nat \<times> ('a, 'p, 'o) trainer" where
  "scheduled_passes ops cfg col data_loader active 0 k st = (None, k, st)"
| "scheduled_passes ops cfg col data_loader active (Suc n) k st =
     (case scheduled_pass ops cfg col (active k) (data_loader k) st of
        (Some e, st') \<Rightarrow> (Some e, k, st')
      | (None, st') \<Rightarrow> scheduled_passes ops cfg col data_loader active n (Suc k) st')"

subsection \<open>Example inputs\<close>

text \<open>A random state whose draws are all the same.\<close>

definition const_rng :: "nat \<Rightarrow> 'a \<Rightarrow> 'a rng" where
  "const_rng n v = \<lparr>int_src = (\<lambda>_. n), normal_src = (\<lambda>_. v)\<rparr>"

text \<open>
  Collaborators that count: every optimizer step adds the gradient, which is
  always 1, to the parameters, so the parameters of a network are the number of
  its updates.
\<close>

definition counting_ops :: "(int, nat, nat) collaborators" where
  "counting_ops =
     \<lparr>model_g = (\<lambda>p z c. z),
      grad_loss_g = (\<lambda>l pg pd z c y. (1, 1)),
      grad_loss_d = (\<lambda>pd y y'. 1),
      zero_grad = (\<lambda>g. 0),
      accumulate = (\<lambda>g d. g + d),
      clip_grad_norm = (\<lambda>n g. g),
      optimizer_step = (\<lambda>p g s. (p + g, Suc s)),
      schedular_step = Suc\<rparr>"

definition example_config :: "int \<Rightarrow> int \<Rightarrow> config" where
  "example_config start budget =
     \<lparr>config_batch_max_steps = 4, config_hop_size = 2, config_aux_context_window = 0,
      config_lambda_adv = 4, config_grad_norm = 10,
      config_discriminator_start_iter = start, config_iters = budget\<rparr>"

definition example_trainer :: "(int, nat, nat) trainer" where
  "example_trainer =
     \<lparr>gen = \<lparr>params = 0, grads = 0, optim = 0\<rparr>,
      disc = \<lparr>params = 0, grads = 0, optim = 0\<rparr>,
      rand = const_rng 0 0\<rparr>"

definition example_collater :: collater where
  "example_collater =
     \<lparr>batch_max_steps = 4, batch_max_frames = 2, hop_size = 2, aux_context_window = 0\<rparr>"

definition example_batch :: "(int list \<times> int ndarray2) list" where
  "example_batch = [([1, 2, 3, 4], \<lparr>ncols = 1, rows = [[5], [6]]\<rparr>)]"

definition example_loader :: "nat \<Rightarrow> (int list \<times> int ndarray2) list list" where
  "example_loader k = [example_batch]"

definition example_loader_two :: "nat \<Rightarrow> (int list \<times> int ndarray2) list list" where
  "example_loader_two k = [example_batch, example_batch]"

text \<open>
  Batches of pairs that are not cropped: two short items, and the two items of
  1000 and 1500 samples with hop size 1.
\<close>

definition long_clip_batch :: "(int list \<times> int ndarray2) list" where
  "long_clip_batch =
     [(replicate 1000 1, \<lparr>ncols = 1, rows = replicate 1000 [2]\<rparr>),
      (replicate 1500 1, \<lparr>ncols = 1, rows = replicate 1500 [2]\<rparr>)]"

definition unit_hop_collater :: collater where
  "unit_hop_collater =
     \<lparr>batch_max_steps = 2000, batch_max_frames = 2000, hop_size = 1, aux_context_window = 0\<rparr>"

definition two_item_batch :: "(int list \<times> int ndarray2) list" where
  "two_item_batch =
     [([1, 2, 3, 4], \<lparr>ncols = 1, rows = [[5], [6]]\<rparr>), ([7, 8], \<lparr>ncols = 1, rows = [[9]]\<rparr>)]"

section \<open>Properties\<close>

subsection \<open>Slices and random offsets\<close>

lemma length_py_slice:
  "0 \<le> i \<Longrightarrow> i \<le> j \<Longrightarrow> j \<le> int (length xs) \<Longrightarrow> length (py_slice xs i j) = nat (j - i)"
  by (auto simp: py_slice_def slice_index_def Let_def)

lemma randint_Inr:
  "randint low high g = Inr (s, g') \<Longrightarrow> low \<le> s \<and> s < high"
proof -
  assume a: "randint low high g = Inr (s, g')"
  then have lt: "low < high" and s: "s = low + int (int_src g 0) mod (high - low)"
    by (auto simp: randint_def split: if_splits)
  have "0 \<le> int (int_src g 0) mod (high - low)" "int (int_src g 0) mod (high - low) < high - low"
    using lt by simp_all
  then show ?thesis using s by simp
qed

lemma randint_Inl:
  "randint low high g = Inl e \<longleftrightarrow> high \<le> low \<and> e = ValueError"
  by (auto simp: randint_def)

lemma randint_ex:
  "low < high \<Longrightarrow> \<exists>s g'. randint low high g = Inr (s, g')"
  by (simp add: randint_def)

lemma len2_slice2:
  "0 \<le> i \<Longrightarrow> i \<le> j \<Longrightarrow> j \<le> int (len2 c) \<Longrightarrow> len2 (slice2 c i j) = nat (j - i)"
  by (simp add: len2_def slice2_def length_py_slice)

lemma crop_lengths:
  assumes hop: "0 < hop_size col" and cw: "0 \<le> aux_context_window col"
    and bmf: "0 \<le> batch_max_frames col"
    and rel: "batch_max_steps col = batch_max_frames col * hop_size col"
    and raw: "int (length x) = int (len2 c) * hop_size col"
    and lo: "aux_context_window col \<le> s"
    and hi: "s < int (len2 c) - batch_max_frames col - aux_context_window col"
  shows "length (py_slice x (s * hop_size col) (s * hop_size col + batch_max_steps col))
           = nat (batch_max_steps col)"
    and "len2 (slice2 c (s - aux_context_window col)
                (s + aux_context_window col + batch_max_frames col))
           = nat (batch_max_frames col + 2 * aux_context_window col)"
proof -
  have s0: "0 \<le> s" using lo cw by simp
  have "s + batch_max_frames col \<le> int (len2 c)" using hi cw by simp
  then have "(s + batch_max_frames col) * hop_size col \<le> int (len2 c) * hop_size col"
    using hop by (simp add: mult_right_mono)
  then have up: "s * hop_size col + batch_max_steps col \<le> int (length x)"
    by (simp add: rel raw distrib_right)
  have "0 \<le> s * hop_size col" using s0 hop by simp
  moreover have "0 \<le> batch_max_steps col" using bmf hop rel by simp
  ultimately show "length (py_slice x (s * hop_size col) (s * hop_size col + batch_max_steps col))
           = nat (batch_max_steps col)"
    using up by (simp add: length_py_slice)
  show "len2 (slice2 c (s - aux_context_window col)
                (s + aux_context_window col + batch_max_frames col))
           = nat (batch_max_frames col + 2 * aux_context_window col)"
    using lo hi cw bmf by (simp add: len2_slice2)
qed

lemma align_crop:
  assumes hop: "0 < hop_size col" and cw: "0 \<le> aux_context_window col"
    and bmf: "0 \<le> batch_max_frames col"
    and rel: "batch_max_steps col = batch_max_frames col * hop_size col"
    and raw: "int (length x) = int (len2 c) * hop_size col"
    and long: "batch_max_steps col < int (length x)"
    and ne: "aux_context_window col < int (len2 c) - batch_max_frames col - aux_context_window col"
  shows "\<exists>x' c' g'. align col (x, c) g = Inr ((x', c'), g')
           \<and> length x' = nat (batch_max_steps col)
           \<and> len2 c' = nat (batch_max_frames col + 2 * aux_context_window col)
           \<and> ncols c' = ncols c"
proof -
  obtain s g' where r: "randint (aux_context_window col)
       (int (len2 c) - batch_max_frames col - aux_context_window col) g = Inr (s, g')"
    using randint_ex [OF ne] by blast
  note b = randint_Inr [OF r]
  note L = crop_lengths [OF hop cw bmf rel raw conjunct1 [OF b] conjunct2 [OF b]]
  have post: "assert_ready_for_upsampling
          (py_slice x (s * hop_size col) (s * hop_size col + batch_max_steps col))
          (slice2 c (s - aux_context_window col) (s + aux_context_window col + batch_max_frames col))
          (hop_size col) (aux_context_window col) = Inr ()"
  proof -
    have "int (nat (batch_max_steps col)) = batch_max_steps col"
      using bmf hop rel by simp
    moreover have "int (nat (batch_max_frames col + 2 * aux_context_window col))
        = batch_max_frames col + 2 * aux_context_window col"
      using bmf cw by simp
    ultimately show ?thesis
      unfolding assert_ready_for_upsampling_def L using rel by simp
  qed
  show ?thesis
    using raw long r post L
    by (simp add: align_def assert_ready_for_upsampling_def Let_def slice2_def)
qed

lemma randint_const_rng:
  "low < high \<Longrightarrow>
     randint low high (const_rng n v) = Inr (low + int n mod (high - low), const_rng n v)"
  by (simp add: randint_def const_rng_def)

subsection \<open>Construction and the aligner\<close>

lemma collater_init_Inr:"collater_init bms hop cw = Inr col \<longleftrightarrow>
     hop \<noteq> 0 \<and> col = \<lparr>batch_max_steps = bms - bms mod hop, batch_max_frames = bms div hop,
                        hop_size = hop, aux_context_window = cw\<rparr>"
proof -
  have a: "(bms - bms mod hop) mod hop = 0"
    by (simp add: minus_mod_eq_mult_div)
  have b: "(bms - bms mod hop) div hop = bms div hop" if "hop \<noteq> 0"
    using that by (simp add: minus_mod_eq_mult_div)
  show ?thesis
    using a b by (auto simp: collater_init_def Let_def)
qed

lemma collater_init_sane:
  assumes "collater_init bms hop cw = Inr col" and "0 < hop" and "0 \<le> bms"
  shows "0 < hop_size col" and "0 \<le> batch_max_frames col"
    and "batch_max_steps col = batch_max_frames col * hop_size col"
    and "aux_context_window col = cw"
proof -
  from assms(1) have col: "col = \<lparr>batch_max_steps = bms - bms mod hop,
      batch_max_frames = bms div hop, hop_size = hop, aux_context_window = cw\<rparr>"
    by (simp add: collater_init_Inr)
  show "0 < hop_size col" using assms(2) col by simp
  show "0 \<le> batch_max_frames col" using assms(2,3) col by (simp add: pos_imp_zdiv_nonneg_iff)
  show "batch_max_steps col = batch_max_frames col * hop_size col"
    using col by (simp add: minus_mod_eq_div_mult)
  show "aux_context_window col = cw" using col by simp
qed

lemma align_Inr_short:
  assumes "align col (x, c) g = Inr ((x', c'), g')" and "int (length x) \<le> batch_max_steps col"
  shows "x' = x \<and> c' = c \<and> g' = g"
  using assms
  by (auto simp: align_def split: sum.splits if_splits)

lemma align_Inr_raw:
  assumes "align col (x, c) g = Inr r"
  shows "int (length x) = int (len2 c) * hop_size col"
  using assms
  by (auto simp: align_def assert_ready_for_upsampling_def split: sum.splits if_splits)

lemma align_Inr_long:
  assumes "align col (x, c) g = Inr ((x', c'), g')" and "batch_max_steps col < int (length x)"
  shows "\<exists>s. randint (aux_context_window col)
                (int (len2 c) - batch_max_frames col - aux_context_window col) g = Inr (s, g')
           \<and> x' = py_slice x (s * hop_size col) (s * hop_size col + batch_max_steps col)
           \<and> c' = slice2 c (s - aux_context_window col)
                    (s + aux_context_window col + batch_max_frames col)
           \<and> int (length x') = (int (len2 c') - 2 * aux_context_window col) * hop_size col"
  using assms
  by (auto simp: align_def assert_ready_for_upsampling_def Let_def split: sum.splits if_splits)

lemma align_pass_through:
  assumes "int (length x) = int (len2 c) * hop_size col"
    and "int (length x) \<le> batch_max_steps col"
  shows "align col (x, c) g = Inr ((x, c), g)"
  using assms by (simp add: align_def assert_ready_for_upsampling_def)

lemma align_empty_interval:
  assumes "int (length x) = int (len2 c) * hop_size col"
    and "batch_max_steps col < int (length x)"
    and "int (len2 c) - batch_max_frames col - aux_context_window col \<le> aux_context_window col"
  shows "align col (x, c) g = Inl ValueError"
  using assms by (simp add: align_def assert_ready_for_upsampling_def randint_def)

lemma align_raw_violation:
  assumes "int (length x) \<noteq> int (len2 c) * hop_size col"
  shows "align col (x, c) g = Inl AssertionError"
  using assms by (simp add: align_def assert_ready_for_upsampling_def)

text \<open>
  C2. The constructor rounds the configured \<^verbatim>\<open>batch_max_steps\<close> down to the
  nearest multiple of a positive hop size: the stored value is a multiple of the
  hop size, is at most the configured value and is less than one hop below it.
  Nothing changes it afterwards (the collater is not part of any result). For a
  non-negative target length and context window, whenever the audio of a pair
  is longer than the stored value and the aligner returns a pair, the audio
  returned has exactly the stored length.
\<close>

theorem batch_max_steps_rounded_and_crop_length:assumes init: "collater_init bms hop cw = Inr col" and hop: "0 < hop"
  shows "batch_max_steps col = bms - bms mod hop \<and> hop dvd batch_max_steps col
      \<and> batch_max_steps col \<le> bms \<and> bms < batch_max_steps col + hop
      \<and> (0 \<le> bms \<longrightarrow> 0 \<le> cw \<longrightarrow> batch_max_steps col < int (length x) \<longrightarrow>
           align col (x, c) g = Inr ((x', c'), g') \<longrightarrow> int (length x') = batch_max_steps col)"
proof -
  from init have col: "col = \<lparr>batch_max_steps = bms - bms mod hop,
      batch_max_frames = bms div hop, hop_size = hop, aux_context_window = cw\<rparr>"
    by (simp add: collater_init_Inr)
  have r1: "batch_max_steps col = bms - bms mod hop" using col by simp
  have r2: "hop dvd batch_max_steps col"
    unfolding r1 by (simp add: minus_mod_eq_mult_div)
  have "0 \<le> bms mod hop" "bms mod hop < hop" using hop by simp_all
  then have r3: "batch_max_steps col \<le> bms" and r4: "bms < batch_max_steps col + hop"
    unfolding r1 by simp_all
  have r5: "int (length x') = batch_max_steps col"
    if bms: "0 \<le> bms" and cw: "0 \<le> cw" and long: "batch_max_steps col < int (length x)"
      and ok: "align col (x, c) g = Inr ((x', c'), g')"
  proof -
    note sane = collater_init_sane [OF init hop bms]
    from align_Inr_long [OF ok long] obtain s where
      r: "randint (aux_context_window col)
            (int (len2 c) - batch_max_frames col - aux_context_window col) g = Inr (s, g')"
      and x': "x' = py_slice x (s * hop_size col) (s * hop_size col + batch_max_steps col)"
      by blast
    have cw': "0 \<le> aux_context_window col" using sane(4) cw by simp
    note b = randint_Inr [OF r]
    have "length x' = nat (batch_max_steps col)"
      unfolding x'
      by (rule crop_lengths(1) [OF sane(1) cw' sane(2) sane(3) align_Inr_raw [OF ok]
            conjunct1 [OF b] conjunct2 [OF b]])
    moreover have "0 \<le> batch_max_steps col" using sane(1,2,3) by simp
    ultimately show ?thesis by simp
  qed
  show ?thesis using r1 r2 r3 r4 r5 by blast
qed

theorem batch_max_steps_rounded_and_crop_length_witness:
  "collater_init 5 2 1 = Inr \<lparr>batch_max_steps = 4, batch_max_frames = 2, hop_size = 2,
      aux_context_window = 1\<rparr>
   \<and> align \<lparr>batch_max_steps = 4, batch_max_frames = 2, hop_size = 2, aux_context_window = 1\<rparr>
       ([1, 2, 3, 4, 5, 6, 7, 8, 9, 10, 11, 12 :: int],
        \<lparr>ncols = 1, rows = [[1], [2], [3], [4], [5], [6]]\<rparr>) (const_rng 0 0)
     = Inr (([3, 4, 5, 6], \<lparr>ncols = 1, rows = [[1], [2], [3], [4]]\<rparr>), const_rng 0 0)
   \<and> int (length [3, 4, 5, 6 :: int]) = 4"
  using batch_max_steps_rounded_and_crop_length [of 5 2 1
      "\<lparr>batch_max_steps = 4, batch_max_frames = 2, hop_size = 2, aux_context_window = 1\<rparr>"
      "[1, 2, 3, 4, 5, 6, 7, 8, 9, 10, 11, 12 :: int]"
      "\<lparr>ncols = 1, rows = [[1], [2], [3], [4], [5], [6]]\<rparr>" "const_rng 0 0"
      "[3, 4, 5, 6]" "\<lparr>ncols = 1, rows = [[1], [2], [3], [4]]\<rparr>" "const_rng 0 0"]
  by (simp add: collater_init_def align_def assert_ready_for_upsampling_def
      randint_const_rng py_slice_def slice_index_def slice2_def len2_def Let_def)

text \<open>
  C6. A pair that satisfies the raw alignment (the first assertion of the loop
  body) and whose audio is not longer than the collater's target length is
  returned as it is, with the random state untouched; so is the result of
  sending the returned pair through the aligner a second time.
\<close>

theorem short_pair_unchanged_idempotent:
  assumes raw: "int (length x) = int (len2 c) * hop_size col"
    and short: "int (length x) \<le> batch_max_steps col"
  shows "align col (x, c) g = Inr ((x, c), g)
     \<and> (case align col (x, c) g of Inl e \<Rightarrow> Inl e | Inr (xc', g') \<Rightarrow> align col xc' g')
         = align col (x, c) g"
  by (simp add: align_pass_through [OF raw short])

theorem short_pair_unchanged_idempotent_witness:
  "int (length [7, 8, 9, 10 :: int]) = int (len2 \<lparr>ncols = 1, rows = [[1 :: int], [2]]\<rparr>) * 2
   \<and> int (length [7, 8, 9, 10 :: int]) \<le> 4
   \<and> align \<lparr>batch_max_steps = 4, batch_max_frames = 2, hop_size = 2, aux_context_window = 1\<rparr>
       ([7, 8, 9, 10 :: int], \<lparr>ncols = 1, rows = [[1], [2]]\<rparr>) (const_rng 0 0)
     = Inr (([7, 8, 9, 10], \<lparr>ncols = 1, rows = [[1], [2]]\<rparr>), const_rng 0 0)"
  using short_pair_unchanged_idempotent [of "[7, 8, 9, 10 :: int]"
      "\<lparr>ncols = 1, rows = [[1], [2]]\<rparr>"
      "\<lparr>batch_max_steps = 4, batch_max_frames = 2, hop_size = 2, aux_context_window = 1\<rparr>"
      "const_rng 0 0"]
  by (simp add: len2_def)

text \<open>
  C10. With a context window of 0 and a positive hop size, a pair that satisfies
  the raw alignment and whose audio is longer than the normalised target length
  has a non-empty offset interval, so the aligner never ends in the
  \<^verbatim>\<open>ValueError\<close> of \<^verbatim>\<open>randint\<close>; for a non-negative target length it
  returns a cropped pair.
\<close>

theorem no_context_crop_never_fails:
  assumes init: "collater_init bms hop 0 = Inr col" and hop: "0 < hop"
    and raw: "int (length x) = int (len2 c) * hop_size col"
    and long: "batch_max_steps col < int (length x)"
  shows "aux_context_window col
           < int (len2 c) - batch_max_frames col - aux_context_window col
      \<and> align col (x, c) g \<noteq> Inl ValueError
      \<and> (0 \<le> bms \<longrightarrow>
           (\<exists>x' c' g'. align col (x, c) g = Inr ((x', c'), g')
              \<and> int (length x') = batch_max_steps col))"
proof -
  from init have col: "col = \<lparr>batch_max_steps = bms - bms mod hop,
      batch_max_frames = bms div hop, hop_size = hop, aux_context_window = 0\<rparr>"
    by (simp add: collater_init_Inr)
  have rel: "batch_max_steps col = batch_max_frames col * hop_size col"
    using col by (simp add: minus_mod_eq_div_mult)
  have "batch_max_frames col * hop < int (len2 c) * hop"
    using long raw rel col by simp
  then have "batch_max_frames col < int (len2 c)"
    using hop by (simp add: mult_less_cancel_right)
  then have ne: "aux_context_window col
           < int (len2 c) - batch_max_frames col - aux_context_window col"
    using col by simp
  obtain s g' where r: "randint (aux_context_window col)
       (int (len2 c) - batch_max_frames col - aux_context_window col) g = Inr (s, g')"
    using randint_ex [OF ne] by blast
  have nv: "align col (x, c) g \<noteq> Inl ValueError"
    using raw long r
    by (simp add: align_def assert_ready_for_upsampling_def Let_def split: sum.splits)
  have ok: "\<exists>x' c' g'. align col (x, c) g = Inr ((x', c'), g')
              \<and> int (length x') = batch_max_steps col" if bms: "0 \<le> bms"
  proof -
    note sane = collater_init_sane [OF init hop bms]
    have cw: "0 \<le> aux_context_window col" using sane(4) by simp
    obtain x' c' g' where a: "align col (x, c) g = Inr ((x', c'), g')"
      and l: "length x' = nat (batch_max_steps col)"
      using align_crop [OF sane(1) cw sane(2) sane(3) raw long ne, of g] by blast
    have "0 \<le> batch_max_steps col" using sane(1,2,3) by simp
    then show ?thesis using a l by auto
  qed
  show ?thesis using ne nv ok by blast
qed

theorem no_context_crop_never_fails_witness:
  "collater_init 5 2 0 = Inr \<lparr>batch_max_steps = 4, batch_max_frames = 2, hop_size = 2,
      aux_context_window = 0\<rparr>
   \<and> int (length [1, 2, 3, 4, 5, 6 :: int]) = int (len2 \<lparr>ncols = 1, rows = [[1 :: int], [2], [3]]\<rparr>) * 2
   \<and> 4 < int (length [1, 2, 3, 4, 5, 6 :: int])
   \<and> (\<exists>x' c' g'. align \<lparr>batch_max_steps = 4, batch_max_frames = 2, hop_size = 2,
          aux_context_window = 0\<rparr>
          ([1, 2, 3, 4, 5, 6 :: int], \<lparr>ncols = 1, rows = [[1], [2], [3]]\<rparr>) (const_rng 0 0)
        = Inr ((x', c'), g') \<and> int (length x') = 4)"
  using no_context_crop_never_fails [of 5 2
      "\<lparr>batch_max_steps = 4, batch_max_frames = 2, hop_size = 2, aux_context_window = 0\<rparr>"
      "[1, 2, 3, 4, 5, 6 :: int]" "\<lparr>ncols = 1, rows = [[1], [2], [3]]\<rparr>" "const_rng 0 0"]
  by (simp add: collater_init_def len2_def)

text \<open>
  C1, as the code has it. For a pair that satisfies the raw alignment and that
  the aligner returns a result for: when the pair is cropped, the result is
  aligned with the configured context window; when the pair passes through, the
  result is the pair itself and is aligned with context window 0, which is the
  alignment with the configured window only when that window (or the hop size)
  is 0.
\<close>

theorem aligned_output_invariant:
  assumes raw: "int (length x) = int (len2 c) * hop_size col"
    and ok: "align col (x, c) g = Inr ((x', c'), g')"
  shows "(batch_max_steps col < int (length x) \<longrightarrow>
            int (length x') = (int (len2 c') - 2 * aux_context_window col) * hop_size col)
      \<and> (int (length x) \<le> batch_max_steps col \<longrightarrow>
            x' = x \<and> c' = c \<and> int (length x') = (int (len2 c') - 2 * 0) * hop_size col)"
  using align_Inr_long [OF ok] align_Inr_short [OF ok] raw by auto

theorem aligned_output_invariant_witness:
  "align \<lparr>batch_max_steps = 4, batch_max_frames = 2, hop_size = 2, aux_context_window = 1\<rparr>
       ([1, 2, 3, 4, 5, 6, 7, 8, 9, 10, 11, 12 :: int],
        \<lparr>ncols = 1, rows = [[1], [2], [3], [4], [5], [6]]\<rparr>) (const_rng 0 0)
     = Inr (([3, 4, 5, 6], \<lparr>ncols = 1, rows = [[1], [2], [3], [4]]\<rparr>), const_rng 0 0)
   \<and> int (length [3, 4, 5, 6 :: int])
       = (int (len2 \<lparr>ncols = 1, rows = [[1 :: int], [2], [3], [4]]\<rparr>) - 2 * 1) * 2
   \<and> align \<lparr>batch_max_steps = 4, batch_max_frames = 2, hop_size = 2, aux_context_window = 1\<rparr>
       ([7, 8, 9, 10 :: int], \<lparr>ncols = 1, rows = [[1], [2]]\<rparr>) (const_rng 0 0)
     = Inr (([7, 8, 9, 10], \<lparr>ncols = 1, rows = [[1], [2]]\<rparr>), const_rng 0 0)
   \<and> int (length [7, 8, 9, 10 :: int])
       = (int (len2 \<lparr>ncols = 1, rows = [[1 :: int], [2]]\<rparr>) - 2 * 0) * 2"
  using aligned_output_invariant [of "[1, 2, 3, 4, 5, 6, 7, 8, 9, 10, 11, 12 :: int]"
      "\<lparr>ncols = 1, rows = [[1], [2], [3], [4], [5], [6]]\<rparr>"
      "\<lparr>batch_max_steps = 4, batch_max_frames = 2, hop_size = 2, aux_context_window = 1\<rparr>"
      "const_rng 0 0" "[3, 4, 5, 6]" "\<lparr>ncols = 1, rows = [[1], [2], [3], [4]]\<rparr>" "const_rng 0 0"]
    aligned_output_invariant [of "[7, 8, 9, 10 :: int]" "\<lparr>ncols = 1, rows = [[1], [2]]\<rparr>"
      "\<lparr>batch_max_steps = 4, batch_max_frames = 2, hop_size = 2, aux_context_window = 1\<rparr>"
      "const_rng 0 0" "[7, 8, 9, 10]" "\<lparr>ncols = 1, rows = [[1], [2]]\<rparr>" "const_rng 0 0"]
  by (simp add: align_def assert_ready_for_upsampling_def
      randint_const_rng py_slice_def slice_index_def slice2_def len2_def Let_def)

text \<open>
  C1 as stated fails on a pair that passes through: with hop size 1, context
  window 2 and target length 10, a pair of 3 samples and 3 frames is returned
  unchanged, and 3 is not \<open>(3 - 2 * 2) * 1\<close>.
\<close>

theorem pass_through_breaks_context_invariant:
  "collater_init 10 1 2 = Inr \<lparr>batch_max_steps = 10, batch_max_frames = 10, hop_size = 1,
      aux_context_window = 2\<rparr>
   \<and> int (length [5, 6, 7 :: int]) = int (len2 \<lparr>ncols = 1, rows = [[1 :: int], [2], [3]]\<rparr>) * 1
   \<and> align \<lparr>batch_max_steps = 10, batch_max_frames = 10, hop_size = 1, aux_context_window = 2\<rparr>
       ([5, 6, 7 :: int], \<lparr>ncols = 1, rows = [[1], [2], [3]]\<rparr>) (const_rng 0 0)
     = Inr (([5, 6, 7], \<lparr>ncols = 1, rows = [[1], [2], [3]]\<rparr>), const_rng 0 0)
   \<and> int (length [5, 6, 7 :: int])
       \<noteq> (int (len2 \<lparr>ncols = 1, rows = [[1 :: int], [2], [3]]\<rparr>) - 2 * 2) * 1"
  by (simp add: collater_init_def align_def assert_ready_for_upsampling_def len2_def)

subsection \<open>The training loop\<close>

lemma generator_phase_disc:
  "params (disc (snd (generator_phase ops cfg zcy st))) = params (disc st)"
  "optim (disc (snd (generator_phase ops cfg zcy st))) = optim (disc st)"
  by (simp_all add: generator_phase_def Let_def split: prod.splits)

lemma train_step_frozen:
  assumes "int gs \<le> config_discriminator_start_iter cfg"
  shows "params (disc (train_step ops cfg gs zcy st)) = params (disc st)"
    and "optim (disc (train_step ops cfg gs zcy st)) = optim (disc st)"
  using assms generator_phase_disc [of ops cfg zcy st]
  by (auto simp: train_step_def split: prod.splits)

lemma train_pass_frozen:
  assumes "int gs \<le> config_discriminator_start_iter cfg"
  shows "params (disc (snd (train_pass ops cfg col gs batches st))) = params (disc st)
       \<and> optim (disc (snd (train_pass ops cfg col gs batches st))) = optim (disc st)"
proof (induction batches arbitrary: st)
  case Nil
  show ?case by simp
next
  case (Cons b bs)
  show ?case
  proof (cases "call col b (rand st)")
    case (Inl e)
    then show ?thesis by simp
  next
    case (Inr r)
    obtain z c y l g' where r: "r = (z, c, y, l, g')" by (cases r) auto
    show ?thesis
      using Inr r Cons.IH [of "train_step ops cfg gs (z, c, y) (st\<lparr>rand := g'\<rparr>)"]
        train_step_frozen [OF assms, of ops "(z, c, y)" "st\<lparr>rand := g'\<rparr>"]
      by simp
  qed
qed

lemma train_loop_frozen:
  assumes "int gs \<le> config_discriminator_start_iter cfg"
    and "config_iters cfg \<le> config_discriminator_start_iter cfg + 1"
  shows "params (disc (snd (snd (train_loop ops cfg col dl gs st)))) = params (disc st)
       \<and> optim (disc (snd (snd (train_loop ops cfg col dl gs st)))) = optim (disc st)"
  using assms
proof (induction ops cfg col dl gs st rule: train_loop.induct)
  case (1 ops cfg col dl gs st)
  obtain e st' where p: "train_pass ops cfg col gs (dl gs) st = (e, st')"
    by (cases "train_pass ops cfg col gs (dl gs) st") auto
  have f: "params (disc st') = params (disc st) \<and> optim (disc st') = optim (disc st)"
    using train_pass_frozen [OF "1.prems"(1), of ops col "dl gs" st] p by simp
  show ?case
  proof (cases e)
    case (Some err)
    then show ?thesis using p f by (subst train_loop.simps, simp)+
  next
    case None
    show ?thesis
    proof (cases "config_iters cfg \<le> int (gs + 1)")
      case True
      then show ?thesis using p f None by (subst train_loop.simps, simp)+
    next
      case False
      have "int (gs + 1) \<le> config_discriminator_start_iter cfg"
        using False "1.prems"(2) by simp
      from "1.IH" [OF p [symmetric] None False this "1.prems"(2)]
      have "params (disc (snd (snd (train_loop ops cfg col dl (gs + 1) st')))) = params (disc st')
        \<and> optim (disc (snd (snd (train_loop ops cfg col dl (gs + 1) st')))) = optim (disc st')" .
      moreover have "train_loop ops cfg col dl gs st = train_loop ops cfg col dl (gs + 1) st'"
        using p None False by (subst train_loop.simps) simp
      ultimately show ?thesis using f by simp
    qed
  qed
qed

lemma train_loop_spec_passes:
  "train_loop ops cfg col dl gs st
     = spec_passes ops cfg col dl (max 1 (nat (config_iters cfg - int gs))) gs st"
proof (induction ops cfg col dl gs st rule: train_loop.induct)
  case (1 ops cfg col dl gs st)
  obtain e st' where p: "train_pass ops cfg col gs (dl gs) st = (e, st')"
    by (cases "train_pass ops cfg col gs (dl gs) st") auto
  obtain n where n: "max 1 (nat (config_iters cfg - int gs)) = Suc n"
    by (cases "max 1 (nat (config_iters cfg - int gs))") auto
  show ?case
  proof (cases e)
    case (Some err)
    then show ?thesis using p unfolding n by (subst train_loop.simps) simp
  next
    case None
    show ?thesis
    proof (cases "config_iters cfg \<le> int (gs + 1)")
      case True
      then have "n = 0" using n by (auto simp: max_def split: if_splits)
      then show ?thesis using p None True unfolding n by (subst train_loop.simps) simp
    next
      case False
      then have n': "max 1 (nat (config_iters cfg - int (gs + 1))) = n"
        using n by (auto simp: max_def split: if_splits)
      have "train_loop ops cfg col dl gs st = train_loop ops cfg col dl (gs + 1) st'"
        using p None False by (subst train_loop.simps) simp
      also have "\<dots> = spec_passes ops cfg col dl n (gs + 1) st'"
        using "1.IH" [OF p [symmetric] None False] n' by simp
      finally show ?thesis using p None unfolding n by simp
    qed
  qed
qed

lemma spec_passes_counter:
  "(case spec_passes ops cfg col dl n gs st of
      (None, k, st') \<Rightarrow> k = gs + n
    | (Some e, k, st') \<Rightarrow> gs \<le> k \<and> k < gs + n)"
proof (induction n arbitrary: gs st)
  case 0
  show ?case by simp
next
  case (Suc n)
  obtain e st' where p: "train_pass ops cfg col gs (dl gs) st = (e, st')"
    by (cases "train_pass ops cfg col gs (dl gs) st") auto
  show ?case
  proof (cases e)
    case (Some err)
    then show ?thesis using p by simp
  next
    case None
    show ?thesis
      using Suc.IH [of "Suc gs" st'] p None
      by (auto split: prod.splits option.splits)
  qed
qed

lemma align_batch_fails:
  assumes "xc \<in> set batch" and "\<And>g. \<exists>e. align col xc g = Inl e"
  shows "\<exists>e. align_batch col batch g = Inl e"
  using assms(1)
proof (induction batch arbitrary: g)
  case Nil
  then show ?case by simp
next
  case (Cons p ps)
  show ?case
  proof (cases "align col p g")
    case (Inl e)
    then show ?thesis by simp
  next
    case (Inr r)
    obtain p' g' where r: "r = (p', g')" by (cases r) auto
    have "p \<noteq> xc" using Inr assms(2) [of g] by auto
    then have "xc \<in> set ps" using Cons.prems by auto
    from Cons.IH [OF this, of g'] obtain e where "align_batch col ps g' = Inl e" by blast
    then show ?thesis using Inr r by simp
  qed
qed

lemma call_fails:
  assumes "\<exists>e. align_batch col batch g = Inl e"
  shows "\<exists>e. call col batch g = Inl e"
  using assms by (auto simp: call_def)

lemma train_pass_fails:
  assumes "batch \<in> set batches" and "\<And>g. \<exists>e. call col batch g = Inl e"
  shows "fst (train_pass ops cfg col gs batches st) \<noteq> None"
  using assms(1)
proof (induction batches arbitrary: st)
  case Nil
  then show ?case by simp
next
  case (Cons b bs)
  show ?case
  proof (cases "call col b (rand st)")
    case (Inl e)
    then show ?thesis by simp
  next
    case (Inr r)
    obtain z c y l g' where r: "r = (z, c, y, l, g')" by (cases r) auto
    have "b \<noteq> batch" using Inr assms(2) [of "rand st"] by auto
    then have "batch \<in> set bs" using Cons.prems by auto
    from Cons.IH [OF this] show ?thesis using Inr r by simp
  qed
qed

lemma train_loop_fails:
  assumes "fst (train_pass ops cfg col gs (dl gs) st) \<noteq> None"
  shows "fst (train_loop ops cfg col dl gs st) \<noteq> None"
  using assms by (subst train_loop.simps) (auto split: prod.splits option.splits)

text \<open>The example run, evaluated.\<close>

lemma example_init:
  "collater_init (config_batch_max_steps (example_config s b))
     (config_hop_size (example_config s b)) (config_aux_context_window (example_config s b))
   = Inr example_collater"
  by (simp add: collater_init_def example_config_def example_collater_def)

lemma example_call:
  "call example_collater example_batch (const_rng 0 0)
   = Inr (\<lparr>dims = (1, 1, 4), vals = [[[0, 0, 0, 0]]]\<rparr>,
          \<lparr>dims = (1, 1, 2), vals = [[[5, 6]]]\<rparr>,
          \<lparr>dims = (1, 1, 4), vals = [[[1, 2, 3, 4]]]\<rparr>, [4], const_rng 0 0)"
  by (simp add: call_def align_def assert_ready_for_upsampling_def len2_def pad_2darray_def
      reshape_col_def np_array_def shape2_def transpose21_def randn_def const_rng_def Let_def
      upt_conv_Cons example_collater_def example_batch_def)

lemma example_step:
  "train_step counting_ops (example_config s b) gs zcy st
   = st\<lparr>gen := \<lparr>params = params (gen st) + 1, grads = 1, optim = Suc (Suc (optim (gen st)))\<rparr>,
        disc := (if int gs > s
                 then \<lparr>params = params (disc st) + 1, grads = 1,
                        optim = Suc (Suc (optim (disc st)))\<rparr>
                 else (disc st)\<lparr>grads := grads (disc st) + 1\<rparr>)\<rparr>"
  by (simp add: train_step_def generator_phase_def discriminator_phase_def counting_ops_def
      example_config_def Let_def split: prod.splits)

lemma example_pass:
  "rand st = const_rng 0 0 \<Longrightarrow>
   train_pass counting_ops (example_config s b) example_collater gs (example_loader k) st
   = (None, train_step counting_ops (example_config s b) gs
        (\<lparr>dims = (1, 1, 4), vals = [[[0, 0, 0, 0]]]\<rparr>,
         \<lparr>dims = (1, 1, 2), vals = [[[5, 6]]]\<rparr>,
         \<lparr>dims = (1, 1, 4), vals = [[[1, 2, 3, 4]]]\<rparr>) (st\<lparr>rand := const_rng 0 0\<rparr>))"
  by (simp add: example_loader_def example_call)

lemma example_no_error:
  "rand st = const_rng 0 0 \<Longrightarrow>
   fst (spec_passes counting_ops (example_config s b) example_collater example_loader n gs st)
     = None"
proof (induction n arbitrary: gs st)
  case 0
  show ?case by simp
next
  case (Suc n)
  show ?case
    using Suc.prems
    by (simp add: example_pass [OF Suc.prems] Suc.IH example_step)
qed

lemma example_trainer_rand: "rand example_trainer = const_rng 0 0"
  by (simp add: example_trainer_def)

lemma example_pass_two:
  "rand st = const_rng 0 0 \<Longrightarrow>
   train_pass counting_ops (example_config s b) example_collater gs (example_loader_two k) st
   = (None, train_step counting_ops (example_config s b) gs
        (\<lparr>dims = (1, 1, 4), vals = [[[0, 0, 0, 0]]]\<rparr>,
         \<lparr>dims = (1, 1, 2), vals = [[[5, 6]]]\<rparr>,
         \<lparr>dims = (1, 1, 4), vals = [[[1, 2, 3, 4]]]\<rparr>)
        (train_step counting_ops (example_config s b) gs
          (\<lparr>dims = (1, 1, 4), vals = [[[0, 0, 0, 0]]]\<rparr>,
           \<lparr>dims = (1, 1, 2), vals = [[[5, 6]]]\<rparr>,
           \<lparr>dims = (1, 1, 4), vals = [[[1, 2, 3, 4]]]\<rparr>) (st\<lparr>rand := const_rng 0 0\<rparr>)))"
  by (simp add: example_loader_two_def example_call example_step)

lemma example_run_once:
  "b \<le> 1 \<Longrightarrow>
   main counting_ops (example_config s b) example_loader example_trainer
   = (None, 1, \<lparr>gen = \<lparr>params = 1, grads = 1, optim = 2\<rparr>,
                 disc = (if 0 > s then \<lparr>params = 1, grads = 1, optim = 2\<rparr>
                         else \<lparr>params = 0, grads = 1, optim = 0\<rparr>),
                 rand = const_rng 0 0\<rparr>)"
proof -
  assume b: "b \<le> 1"
  have i: "max 1 (nat (config_iters (example_config s b) - int 0)) = Suc 0"
  proof -
    have "nat b \<le> 1" using b by simp
    then show ?thesis by (simp add: example_config_def max_def)
  qed
  show ?thesis
    unfolding main_def example_init sum.case train_loop_spec_passes i
    by (simp add: example_pass [OF example_trainer_rand] example_step)
       (simp add: example_trainer_def)
qed

lemma example_run_three:
  "main counting_ops (example_config 0 3) example_loader example_trainer
   = (None, 3, \<lparr>gen = \<lparr>params = 3, grads = 1, optim = 6\<rparr>,
                 disc = \<lparr>params = 2, grads = 1, optim = 4\<rparr>,
                 rand = const_rng 0 0\<rparr>)"
proof -
  have i: "max 1 (nat (config_iters (example_config 0 3) - int 0)) = Suc (Suc (Suc 0))"
    by (simp add: example_config_def)
  show ?thesis
    unfolding main_def example_init sum.case train_loop_spec_passes i
    by (simp add: example_pass example_trainer_rand example_step)
       (simp add: example_trainer_def)
qed

lemma example_run_two_batches:
  "main counting_ops (example_config 0 2) example_loader_two example_trainer
   = (None, 2, \<lparr>gen = \<lparr>params = 4, grads = 1, optim = 8\<rparr>,
                 disc = \<lparr>params = 2, grads = 1, optim = 4\<rparr>,
                 rand = const_rng 0 0\<rparr>)"
proof -
  have i: "max 1 (nat (config_iters (example_config 0 2) - int 0)) = Suc (Suc 0)"
    by (simp add: example_config_def)
  show ?thesis
    unfolding main_def example_init sum.case train_loop_spec_passes i
    by (simp add: example_pass_two example_trainer_rand example_step)
       (simp add: example_trainer_def)
qed

text \<open>The loop against a schedule of the discriminator's updates.\<close>

lemma train_step_scheduled:
  "train_step ops cfg gs zcy st
     = scheduled_step ops cfg (config_discriminator_start_iter cfg < int gs) zcy st"
  by (simp add: train_step_def scheduled_step_def split: prod.splits)

lemma train_pass_scheduled:
  "train_pass ops cfg col gs batches st
     = scheduled_pass ops cfg col (config_discriminator_start_iter cfg < int gs) batches st"
  by (induction batches arbitrary: st) (simp_all add: train_step_scheduled split: sum.splits)

lemma spec_passes_scheduled:
  "(\<And>k. gs \<le> k \<Longrightarrow> k < gs + n \<Longrightarrow>
       active k = (config_discriminator_start_iter cfg < int k)) \<Longrightarrow>
   spec_passes ops cfg col dl n gs st = scheduled_passes ops cfg col dl active n gs st"
proof (induction n arbitrary: gs st)
  case 0
  show ?case by simp
next
  case (Suc n)
  have a: "active gs = (config_discriminator_start_iter cfg < int gs)"
    using Suc.prems [of gs] by simp
  have b: "spec_passes ops cfg col dl n (Suc gs) st'
        = scheduled_passes ops cfg col dl active n (Suc gs) st'" for st'
    by (rule Suc.IH) (use Suc.prems in simp)
  show ?case
    by (simp add: train_pass_scheduled a b split: prod.splits option.splits)
qed

lemma main_scheduled:
  assumes "\<And>k. k < max 1 (nat (config_iters cfg)) \<Longrightarrow>
             active k = (config_discriminator_start_iter cfg < int k)"
  shows "main ops cfg dl st =
     (case collater_init (config_batch_max_steps cfg) (config_hop_size cfg)
             (config_aux_context_window cfg) of
        Inl e \<Rightarrow> (Some e, 0, st)
      | Inr col \<Rightarrow>
          scheduled_passes ops cfg col dl active (max 1 (nat (config_iters cfg))) 0 st)"
proof -
  have "train_loop ops cfg col dl 0 st
      = scheduled_passes ops cfg col dl active (max 1 (nat (config_iters cfg))) 0 st" for col
    unfolding train_loop_spec_passes
    using spec_passes_scheduled [where gs = 0 and n = "max 1 (nat (config_iters cfg))"
        and active = active and cfg = cfg and ops = ops and col = col and dl = dl and st = st]
      assms by simp
  then show ?thesis by (simp add: main_def split: sum.splits)
qed

text \<open>
  C7. When the audio of a pair is longer than the target length and the offset
  interval is empty, the aligner returns no pair for any random state: it ends
  in the \<^verbatim>\<open>ValueError\<close> of \<^verbatim>\<open>randint\<close> when the raw alignment holds (and in
  the \<^verbatim>\<open>AssertionError\<close> of the first assertion otherwise). The collater then
  fails on every batch that contains the pair, and a training run whose pass
  reaches such a batch ends with an error.
\<close>

theorem empty_crop_interval_is_fatal:
  assumes long: "batch_max_steps col < int (length x)"
    and empty: "int (len2 c) - batch_max_frames col - aux_context_window col
                  \<le> aux_context_window col"
  shows "(\<exists>e. align col (x, c) g = Inl e)
     \<and> (int (length x) = int (len2 c) * hop_size col \<longrightarrow> align col (x, c) g = Inl ValueError)
     \<and> ((x, c) \<in> set batch \<longrightarrow> (\<exists>e. call col batch g = Inl e))
     \<and> ((x, c) \<in> set batch \<longrightarrow> batch \<in> set (data_loader k) \<longrightarrow>
          fst (train_loop ops cfg col data_loader k st) \<noteq> None)"
proof -
  have a: "\<exists>e. align col (x, c) g' = Inl e" for g' :: "'a rng"
    using align_empty_interval [OF _ long empty, of g'] align_raw_violation [of x c col g']
    by (cases "int (length x) = int (len2 c) * hop_size col") auto
  have b: "\<exists>e. call col batch g' = Inl e" if "(x, c) \<in> set batch" for g' :: "'a rng"
    by (rule call_fails, rule align_batch_fails [OF that]) (rule a)
  have c: "fst (train_loop ops cfg col data_loader k st) \<noteq> None"
    if "(x, c) \<in> set batch" and "batch \<in> set (data_loader k)"
    by (rule train_loop_fails, rule train_pass_fails [OF that(2)]) (rule b [OF that(1)])
  show ?thesis
    using a [of g] align_empty_interval [OF _ long empty, of g] b [of g] c by blast
qed

theorem empty_crop_interval_is_fatal_witness:
  "4 < int (length [1, 2, 3, 4, 5, 6 :: int])
   \<and> int (len2 \<lparr>ncols = 1, rows = [[1 :: int], [2], [3]]\<rparr>) - 2 - 1 \<le> 1
   \<and> align \<lparr>batch_max_steps = 4, batch_max_frames = 2, hop_size = 2, aux_context_window = 1\<rparr>
        ([1, 2, 3, 4, 5, 6 :: int], \<lparr>ncols = 1, rows = [[1], [2], [3]]\<rparr>) (const_rng 0 0)
      = Inl ValueError
   \<and> (\<exists>e. call \<lparr>batch_max_steps = 4, batch_max_frames = 2, hop_size = 2, aux_context_window = 1\<rparr>
        [([1, 2, 3, 4, 5, 6 :: int], \<lparr>ncols = 1, rows = [[1], [2], [3]]\<rparr>)] (const_rng 0 0)
      = Inl e)
   \<and> fst (train_loop counting_ops (example_config 0 1)
        \<lparr>batch_max_steps = 4, batch_max_frames = 2, hop_size = 2, aux_context_window = 1\<rparr>
        (\<lambda>k. [[([1, 2, 3, 4, 5, 6 :: int], \<lparr>ncols = 1, rows = [[1], [2], [3]]\<rparr>)]]) 0
        example_trainer) \<noteq> None"
  using empty_crop_interval_is_fatal [where
      col = "\<lparr>batch_max_steps = 4, batch_max_frames = 2, hop_size = 2, aux_context_window = 1\<rparr>"
      and x = "[1, 2, 3, 4, 5, 6 :: int]" and c = "\<lparr>ncols = 1, rows = [[1], [2], [3]]\<rparr>"
      and g = "const_rng 0 0"
      and batch = "[([1, 2, 3, 4, 5, 6 :: int], \<lparr>ncols = 1, rows = [[1], [2], [3]]\<rparr>)]"
      and data_loader = "\<lambda>k. [[([1, 2, 3, 4, 5, 6 :: int], \<lparr>ncols = 1, rows = [[1], [2], [3]]\<rparr>)]]"
      and k = 0 and ops = counting_ops and cfg = "example_config 0 1" and st = example_trainer]
  by (simp add: len2_def)

text \<open>
  C3. One iteration runs the discriminator's update exactly when
  \<open>global_steps\<close> is greater than \<^verbatim>\<open>discriminator_start_iter\<close>. The
  generator's update leaves the discriminator's parameters and the state of its
  optimizer and scheduler as they are (it does add to the discriminator's
  gradient buffers, which \<^verbatim>\<open>loss_g.backward()\<close> reaches); so an iteration made
  while \<open>global_steps \<le> discriminator_start_iter\<close> leaves them unchanged.
\<close>

theorem discriminator_gated_by_start_iter:
  "train_step ops cfg gs zcy st =
     (if int gs > config_discriminator_start_iter cfg
      then discriminator_phase ops cfg (snd (snd zcy)) (fst (generator_phase ops cfg zcy st))
             (snd (generator_phase ops cfg zcy st))
      else snd (generator_phase ops cfg zcy st))
   \<and> params (disc (snd (generator_phase ops cfg zcy st))) = params (disc st)
   \<and> optim (disc (snd (generator_phase ops cfg zcy st))) = optim (disc st)
   \<and> (int gs \<le> config_discriminator_start_iter cfg \<longrightarrow>
        params (disc (train_step ops cfg gs zcy st)) = params (disc st)
      \<and> optim (disc (train_step ops cfg gs zcy st)) = optim (disc st))"
proof -
  have a: "train_step ops cfg gs zcy st =
     (if int gs > config_discriminator_start_iter cfg
      then discriminator_phase ops cfg (snd (snd zcy)) (fst (generator_phase ops cfg zcy st))
             (snd (generator_phase ops cfg zcy st))
      else snd (generator_phase ops cfg zcy st))"
    by (simp add: train_step_def split: prod.splits)
  show ?thesis
    using a generator_phase_disc [of ops cfg zcy st] train_step_frozen [where gs = gs and cfg = cfg]
    by blast
qed

theorem discriminator_gated_by_start_iter_witness:
  "int 1 \<le> config_discriminator_start_iter (example_config 1 5)
   \<and> params (disc (train_step counting_ops (example_config 1 5) 1
         (\<lparr>dims = (1, 1, 1), vals = [[[0]]]\<rparr>, \<lparr>dims = (1, 1, 1), vals = [[[0]]]\<rparr>,
          \<lparr>dims = (1, 1, 1), vals = [[[0]]]\<rparr>) example_trainer)) = 0
   \<and> optim (disc (train_step counting_ops (example_config 1 5) 1
         (\<lparr>dims = (1, 1, 1), vals = [[[0]]]\<rparr>, \<lparr>dims = (1, 1, 1), vals = [[[0]]]\<rparr>,
          \<lparr>dims = (1, 1, 1), vals = [[[0]]]\<rparr>) example_trainer)) = 0
   \<and> params (disc (train_step counting_ops (example_config 1 5) 2
         (\<lparr>dims = (1, 1, 1), vals = [[[0]]]\<rparr>, \<lparr>dims = (1, 1, 1), vals = [[[0]]]\<rparr>,
          \<lparr>dims = (1, 1, 1), vals = [[[0]]]\<rparr>) example_trainer)) = 1"
  using discriminator_gated_by_start_iter [where ops = counting_ops
      and cfg = "example_config 1 5" and gs = 1
      and zcy = "(\<lparr>dims = (1, 1, 1), vals = [[[0]]]\<rparr>, \<lparr>dims = (1, 1, 1), vals = [[[0]]]\<rparr>,
          \<lparr>dims = (1, 1, 1), vals = [[[0]]]\<rparr>)" and st = example_trainer]
  by (simp add: example_step) (simp add: example_config_def example_trainer_def)

text \<open>
  C5. The loop makes \<open>max 1 (iters - global_steps)\<close> passes one after the other,
  the counter going up by one after each pass, unless an error ends the run;
  the function is total, so the loop always ends. Started at 0 by \<^verbatim>\<open>main\<close>, a
  run that is not ended by an error stops with the counter at \<open>max 1 iters\<close>:
  the first value for which the test \<open>global_steps \<ge> iters\<close>, made after each
  pass, holds. A run ended by an error stops with a smaller counter.
\<close>

theorem training_loop_passes:
  "train_loop ops cfg col dl gs st
     = spec_passes ops cfg col dl (max 1 (nat (config_iters cfg - int gs))) gs st
   \<and> (case main ops cfg dl st of
         (None, n, st') \<Rightarrow> int n = max 1 (config_iters cfg)
       | (Some e, n, st') \<Rightarrow> int n < max 1 (config_iters cfg))"
proof -
  have loop: "case train_loop ops cfg col' dl 0 st of
         (None, n, st') \<Rightarrow> int n = max 1 (config_iters cfg)
       | (Some e, n, st') \<Rightarrow> int n < max 1 (config_iters cfg)" for col'
    using spec_passes_counter [where ops = ops and cfg = cfg and col = col' and dl = dl
        and n = "max 1 (nat (config_iters cfg))" and gs = 0 and st = st]
    unfolding train_loop_spec_passes
    by (auto split: prod.splits option.splits)
  have pos: "(0::int) < max 1 (config_iters cfg)" by simp
  have m: "case main ops cfg dl st of
         (None, n, st') \<Rightarrow> int n = max 1 (config_iters cfg)
       | (Some e, n, st') \<Rightarrow> int n < max 1 (config_iters cfg)"
  proof (cases "collater_init (config_batch_max_steps cfg) (config_hop_size cfg)
             (config_aux_context_window cfg)")
    case (Inl e)
    then show ?thesis using pos by (simp add: main_def)
  next
    case (Inr col')
    then show ?thesis using loop [of col'] by (simp add: main_def)
  qed
  show ?thesis
    using train_loop_spec_passes [of ops cfg col dl gs st] m by (rule conjI)
qed

theorem training_loop_passes_witness:
  "fst (main counting_ops (example_config 0 3) example_loader example_trainer) = None
   \<and> fst (snd (main counting_ops (example_config 0 3) example_loader example_trainer)) = 3"
proof -
  have r: "rand example_trainer = const_rng 0 0" by (simp add: example_trainer_def)
  have i: "config_iters (example_config 0 3) = 3" by (simp add: example_config_def)
  have e: "fst (main counting_ops (example_config 0 3) example_loader example_trainer) = None"
    unfolding main_def example_init sum.case train_loop_spec_passes
    by (rule example_no_error [OF r])
  show ?thesis
    using e training_loop_passes [where ops = counting_ops and cfg = "example_config 0 3"
        and dl = example_loader and st = example_trainer and gs = 0 and col = example_collater]
    by (auto simp: i split: prod.splits option.splits)
qed

text \<open>
  C4, as the code has it. With \<^verbatim>\<open>discriminator_start_iter = 0\<close> the run
  that \<^verbatim>\<open>main\<close> makes is the run in which no iteration of the first pass
  (\<open>global_steps = 0\<close>) updates the discriminator and every iteration of every
  later pass does. With a non-negative \<^verbatim>\<open>discriminator_start_iter\<close> above
  the budget \<^verbatim>\<open>iters\<close> it is the run in which no iteration of any pass updates
  the discriminator, and the parameters of the discriminator and the state of
  its optimizer and scheduler are at the end of the run what they were at its
  start, also when an error ends the run.
\<close>

theorem discriminator_start_iter_scenarios:
  "(config_discriminator_start_iter cfg = 0 \<longrightarrow>
       main ops cfg dl st =
         (case collater_init (config_batch_max_steps cfg) (config_hop_size cfg)
                 (config_aux_context_window cfg) of
            Inl e \<Rightarrow> (Some e, 0, st)
          | Inr col' \<Rightarrow>
              scheduled_passes ops cfg col' dl (\<lambda>k. 0 < k)
                (max 1 (nat (config_iters cfg))) 0 st)
     \<and> train_step ops cfg 0 zcy st = snd (generator_phase ops cfg zcy st)
     \<and> params (disc (snd (train_pass ops cfg col 0 batches st))) = params (disc st)
     \<and> optim (disc (snd (train_pass ops cfg col 0 batches st))) = optim (disc st)
     \<and> (0 < gs \<longrightarrow>
          train_step ops cfg gs zcy st
            = discriminator_phase ops cfg (snd (snd zcy)) (fst (generator_phase ops cfg zcy st))
                (snd (generator_phase ops cfg zcy st))))
   \<and> (0 \<le> config_discriminator_start_iter cfg \<longrightarrow>
      config_iters cfg < config_discriminator_start_iter cfg \<longrightarrow>
       main ops cfg dl st =
         (case collater_init (config_batch_max_steps cfg) (config_hop_size cfg)
                 (config_aux_context_window cfg) of
            Inl e \<Rightarrow> (Some e, 0, st)
          | Inr col' \<Rightarrow>
              scheduled_passes ops cfg col' dl (\<lambda>k. False)
                (max 1 (nat (config_iters cfg))) 0 st)
     \<and> params (disc (snd (snd (main ops cfg dl st)))) = params (disc st)
     \<and> optim (disc (snd (snd (main ops cfg dl st)))) = optim (disc st))"
proof -
  have r0: "main ops cfg dl st =
         (case collater_init (config_batch_max_steps cfg) (config_hop_size cfg)
                 (config_aux_context_window cfg) of
            Inl e \<Rightarrow> (Some e, 0, st)
          | Inr col' \<Rightarrow>
              scheduled_passes ops cfg col' dl (\<lambda>k. 0 < k)
                (max 1 (nat (config_iters cfg))) 0 st)"
    if "config_discriminator_start_iter cfg = 0"
    by (rule main_scheduled) (simp add: that)
  have a: "train_step ops cfg 0 zcy st = snd (generator_phase ops cfg zcy st)"
    if "config_discriminator_start_iter cfg = 0"
    using that by (simp add: train_step_def split: prod.splits)
  have b: "params (disc (snd (train_pass ops cfg col 0 batches st))) = params (disc st)
     \<and> optim (disc (snd (train_pass ops cfg col 0 batches st))) = optim (disc st)"
    if "config_discriminator_start_iter cfg = 0"
    by (rule train_pass_frozen) (simp add: that)
  have c: "train_step ops cfg gs zcy st
            = discriminator_phase ops cfg (snd (snd zcy)) (fst (generator_phase ops cfg zcy st))
                (snd (generator_phase ops cfg zcy st))"
    if "config_discriminator_start_iter cfg = 0" and "0 < gs"
    using that by (simp add: train_step_def split: prod.splits)
  have r1: "main ops cfg dl st =
         (case collater_init (config_batch_max_steps cfg) (config_hop_size cfg)
                 (config_aux_context_window cfg) of
            Inl e \<Rightarrow> (Some e, 0, st)
          | Inr col' \<Rightarrow>
              scheduled_passes ops cfg col' dl (\<lambda>k. False)
                (max 1 (nat (config_iters cfg))) 0 st)"
    if s: "0 \<le> config_discriminator_start_iter cfg"
      and i: "config_iters cfg < config_discriminator_start_iter cfg"
  proof (rule main_scheduled)
    fix k assume "k < max 1 (nat (config_iters cfg))"
    then have "int k \<le> config_discriminator_start_iter cfg"
      using s i by (auto simp: max_def split: if_splits)
    then show "False = (config_discriminator_start_iter cfg < int k)" by simp
  qed
  have d: "params (disc (snd (snd (main ops cfg dl st)))) = params (disc st)
     \<and> optim (disc (snd (snd (main ops cfg dl st)))) = optim (disc st)"
    if s: "0 \<le> config_discriminator_start_iter cfg"
      and i: "config_iters cfg < config_discriminator_start_iter cfg"
  proof (cases "collater_init (config_batch_max_steps cfg) (config_hop_size cfg)
             (config_aux_context_window cfg)")
    case (Inl e)
    then show ?thesis by (simp add: main_def)
  next
    case (Inr col')
    have "params (disc (snd (snd (train_loop ops cfg col' dl 0 st)))) = params (disc st)
       \<and> optim (disc (snd (snd (train_loop ops cfg col' dl 0 st)))) = optim (disc st)"
      by (rule train_loop_frozen) (use s i in simp_all)
    then show ?thesis using Inr by (simp add: main_def)
  qed
  show ?thesis using r0 a b c r1 d by blast
qed

theorem discriminator_start_iter_scenarios_witness:
  "config_discriminator_start_iter (example_config 0 3) = 0
   \<and> main counting_ops (example_config 0 3) example_loader example_trainer
       = scheduled_passes counting_ops (example_config 0 3) example_collater example_loader
           (\<lambda>k. 0 < k) 3 0 example_trainer
   \<and> main counting_ops (example_config 0 3) example_loader example_trainer
       = (None, 3, \<lparr>gen = \<lparr>params = 3, grads = 1, optim = 6\<rparr>,
                     disc = \<lparr>params = 2, grads = 1, optim = 4\<rparr>,
                     rand = const_rng 0 0\<rparr>)
   \<and> main counting_ops (example_config 0 2) example_loader_two example_trainer
       = (None, 2, \<lparr>gen = \<lparr>params = 4, grads = 1, optim = 8\<rparr>,
                     disc = \<lparr>params = 2, grads = 1, optim = 4\<rparr>,
                     rand = const_rng 0 0\<rparr>)
   \<and> params (disc (train_step counting_ops (example_config 0 3) 0
         (\<lparr>dims = (1, 1, 1), vals = [[[0]]]\<rparr>, \<lparr>dims = (1, 1, 1), vals = [[[0]]]\<rparr>,
          \<lparr>dims = (1, 1, 1), vals = [[[0]]]\<rparr>) example_trainer)) = 0
   \<and> params (disc (train_step counting_ops (example_config 0 3) 1
         (\<lparr>dims = (1, 1, 1), vals = [[[0]]]\<rparr>, \<lparr>dims = (1, 1, 1), vals = [[[0]]]\<rparr>,
          \<lparr>dims = (1, 1, 1), vals = [[[0]]]\<rparr>) example_trainer)) = 1
   \<and> 0 \<le> config_discriminator_start_iter (example_config 5 2)
   \<and> config_iters (example_config 5 2) < config_discriminator_start_iter (example_config 5 2)
   \<and> params (disc (snd (snd (main counting_ops (example_config 5 2) example_loader
         example_trainer)))) = 0"
proof -
  have s0: "config_discriminator_start_iter (example_config 0 3) = 0"
    and i3: "max 1 (nat (config_iters (example_config 0 3))) = 3"
    and s5: "0 \<le> config_discriminator_start_iter (example_config 5 2)"
    and i5: "config_iters (example_config 5 2) < config_discriminator_start_iter (example_config 5 2)"
    by (simp_all add: example_config_def)
  note t0 = discriminator_start_iter_scenarios [where ops = counting_ops
      and cfg = "example_config 0 3" and gs = 1 and col = example_collater and batches = "[]"
      and zcy = "(\<lparr>dims = (1, 1, 1), vals = [[[0]]]\<rparr>, \<lparr>dims = (1, 1, 1), vals = [[[0]]]\<rparr>,
          \<lparr>dims = (1, 1, 1), vals = [[[0]]]\<rparr>)" and st = example_trainer
      and dl = example_loader]
  note t5 = discriminator_start_iter_scenarios [where ops = counting_ops
      and cfg = "example_config 5 2" and gs = 1 and col = example_collater and batches = "[]"
      and zcy = "(\<lparr>dims = (1, 1, 1), vals = [[[0]]]\<rparr>, \<lparr>dims = (1, 1, 1), vals = [[[0]]]\<rparr>,
          \<lparr>dims = (1, 1, 1), vals = [[[0]]]\<rparr>)" and st = example_trainer
      and dl = example_loader]
  have m: "main counting_ops (example_config 0 3) example_loader example_trainer
       = scheduled_passes counting_ops (example_config 0 3) example_collater example_loader
           (\<lambda>k. 0 < k) 3 0 example_trainer"
    using t0 s0 unfolding example_init sum.case i3 by blast
  have p5: "params (disc (snd (snd (main counting_ops (example_config 5 2) example_loader
         example_trainer)))) = 0"
  proof -
    have "params (disc (snd (snd (main counting_ops (example_config 5 2) example_loader
         example_trainer)))) = params (disc example_trainer)"
      using t5 s5 i5 by blast
    then show ?thesis by (simp add: example_trainer_def)
  qed
  have st0: "params (disc (train_step counting_ops (example_config 0 3) 0
         (\<lparr>dims = (1, 1, 1), vals = [[[0]]]\<rparr>, \<lparr>dims = (1, 1, 1), vals = [[[0]]]\<rparr>,
          \<lparr>dims = (1, 1, 1), vals = [[[0]]]\<rparr>) example_trainer)) = 0"
    and st1: "params (disc (train_step counting_ops (example_config 0 3) 1
         (\<lparr>dims = (1, 1, 1), vals = [[[0]]]\<rparr>, \<lparr>dims = (1, 1, 1), vals = [[[0]]]\<rparr>,
          \<lparr>dims = (1, 1, 1), vals = [[[0]]]\<rparr>) example_trainer)) = 1"
    by (simp_all add: example_step example_trainer_def)
  show ?thesis
    using s0 m example_run_three example_run_two_batches st0 st1 s5 i5 p5
    by (intro conjI)
qed

text \<open>
  C4 as stated fails twice. On the first pass: with
  \<^verbatim>\<open>discriminator_start_iter = 0\<close> and a budget of one pass over one batch,
  the run makes its one iteration (the generator is updated once) and never
  updates the discriminator; with \<^verbatim>\<open>discriminator_start_iter = -1\<close> the same
  run updates it once. And for a negative start value above the budget: with
  \<^verbatim>\<open>discriminator_start_iter = -1\<close> and \<^verbatim>\<open>iters = -5\<close> the one pass that
  is always made updates the discriminator.
\<close>

theorem discriminator_start_iter_zero_skips_first_pass:
  "fst (main counting_ops (example_config 0 1) example_loader example_trainer) = None
   \<and> fst (snd (main counting_ops (example_config 0 1) example_loader example_trainer)) = 1
   \<and> params (gen (snd (snd (main counting_ops (example_config 0 1) example_loader
        example_trainer)))) = 1
   \<and> params (disc (snd (snd (main counting_ops (example_config 0 1) example_loader
        example_trainer)))) = 0
   \<and> params (disc (snd (snd (main counting_ops (example_config (- 1) 1) example_loader
        example_trainer)))) = 1
   \<and> config_iters (example_config (- 1) (- 5))
        < config_discriminator_start_iter (example_config (- 1) (- 5))
   \<and> params (disc example_trainer) = 0
   \<and> params (disc (snd (snd (main counting_ops (example_config (- 1) (- 5)) example_loader
        example_trainer)))) = 1"
  by (simp add: example_run_once) (simp add: example_config_def example_trainer_def)

subsection \<open>The collater's result\<close>

lemma py_max_map:
  "xs \<noteq> [] \<Longrightarrow> py_max (map f xs) = Inr (Max (f ` set xs))"
proof (cases xs)
  case Nil
  assume "xs \<noteq> []"
  with Nil show ?thesis by simp
next
  case (Cons a as)
  have "Max (set (f a # map f as)) = fold max (map f as) (f a)"
    by (rule Max.set_eq_fold)
  then show ?thesis using Cons by simp
qed

lemma map_result_all:
  "(\<And>a. a \<in> set as \<Longrightarrow> f a = Inr (h a)) \<Longrightarrow> map_result f as = Inr (map h as)"
  by (induction as) simp_all

lemma pad_2darray_fits:
  "len2 x \<le> m \<Longrightarrow>
   pad_2darray x (int m) 0 v = Inr (x\<lparr>rows := rows x @ replicate (m - len2 x) (replicate (ncols x) v)\<rparr>)"
  by (simp add: pad_2darray_def Let_def nat_diff_distrib' of_nat_diff)

lemma align_ncols:
  "align col (x, c) g = Inr ((x', c'), g') \<Longrightarrow> ncols c' = ncols c"
  by (auto simp: align_def slice2_def Let_def split: sum.splits if_splits)

lemma align_batch_length_ncols:
  "align_batch col batch g = Inr (nb, g') \<Longrightarrow>
   length nb = length batch \<and> map (\<lambda>p. ncols (snd p)) nb = map (\<lambda>p. ncols (snd p)) batch"
proof (induction batch arbitrary: g nb)
  case Nil
  then show ?case by simp
next
  case (Cons p ps)
  obtain x c where p: "p = (x, c)" by (cases p)
  from Cons.prems obtain x' c' g1 nb' where
    a: "align col (x, c) g = Inr ((x', c'), g1)" and
    r: "align_batch col ps g1 = Inr (nb', g')" and nb: "nb = (x', c') # nb'"
    unfolding p by (auto split: sum.splits)
  show ?case using Cons.IH [OF r] align_ncols [OF a] nb p by simp
qed

lemma np_array_same_shape:
  assumes "as \<noteq> []" and "\<And>a. a \<in> set as \<Longrightarrow> shape2 a = (n, d)"
  shows "np_array as = Inr \<lparr>dims = (length as, n, d), vals = map rows as\<rparr>"
proof -
  obtain a as' where as: "as = a # as'" using assms(1) by (cases as) auto
  have sa: "shape2 a = (n, d)" using assms(2) as by simp
  have "list_all (\<lambda>b. shape2 b = shape2 a) as"
    using assms(2) sa by (simp add: list_all_iff)
  moreover have "len2 a = n" "ncols a = d" using sa by (simp_all add: shape2_def len2_def)
  ultimately show ?thesis using as by (simp add: np_array_def)
qed

lemma column_of_padded:
  "map (\<lambda>r. r ! 0) (map (\<lambda>v. [v]) x @ replicate k [0]) = padded_audio (length x + k) x"
  by (simp add: padded_audio_def o_def)

lemma call_result:
  fixes nb :: "('a::zero list \<times> 'a ndarray2) list"
  assumes ab: "align_batch col batch g = Inr (nb, g')" and ne: "nb \<noteq> []"
    and cols: "\<And>p. p \<in> set nb \<Longrightarrow> ncols (snd p) = d"
  defines "M \<equiv> Max ((\<lambda>p. length (fst p)) ` set nb)"
    and "T \<equiv> Max ((\<lambda>p. len2 (snd p)) ` set nb)"
  shows "call col batch g =
     Inr (fst (randn (length nb, 1, M) g'),
          \<lparr>dims = (length nb, d, T),
           vals = map (\<lambda>p. map (\<lambda>j. map (\<lambda>r. r ! j)
                     (rows (snd p) @ replicate (T - len2 (snd p)) (replicate d 0))) [0..<d]) nb\<rparr>,
          \<lparr>dims = (length nb, 1, M), vals = map (\<lambda>p. [padded_audio M (fst p)]) nb\<rparr>,
          map (\<lambda>p. length (fst p)) nb,
          snd (randn (length nb, 1, M) g'))"
proof -
  have leM: "length (fst p) \<le> M" if "p \<in> set nb" for p
    unfolding M_def using that by (intro Max_ge) auto
  have leT: "len2 (snd p) \<le> T" if "p \<in> set nb" for p
    unfolding T_def using that by (intro Max_ge) auto
  have m1: "py_max (map (\<lambda>b. length (fst b)) nb) = Inr M"
    unfolding M_def by (rule py_max_map [OF ne])
  have m2: "py_max (map (\<lambda>b. len2 (snd b)) nb) = Inr T"
    unfolding T_def by (rule py_max_map [OF ne])
  let ?py = "\<lambda>b. \<lparr>ncols = 1, rows = map (\<lambda>v. [v]) (fst b) @ replicate (M - length (fst b)) [0]\<rparr>"
  let ?pc = "\<lambda>b. (snd b)\<lparr>rows := rows (snd b) @ replicate (T - len2 (snd b)) (replicate d 0)\<rparr>"
  have ys: "map_result (\<lambda>b. pad_2darray (reshape_col (fst b)) (int M) 0 0) nb = Inr (map ?py nb)"
  proof (rule map_result_all)
    fix a assume "a \<in> set nb"
    then have "len2 (reshape_col (fst a)) \<le> M"
      using leM [of a] by (simp add: len2_def reshape_col_def)
    from pad_2darray_fits [OF this, of 0]
    show "pad_2darray (reshape_col (fst a)) (int M) 0 0 = Inr (?py a)"
      by (simp add: reshape_col_def len2_def)
  qed
  have cs: "map_result (\<lambda>b. pad_2darray (snd b) (int T) 0 0) nb = Inr (map ?pc nb)"
  proof (rule map_result_all)
    fix a assume a: "a \<in> set nb"
    from pad_2darray_fits [OF leT [OF a], of 0]
    show "pad_2darray (snd a) (int T) 0 0 = Inr (?pc a)"
      using cols [OF a] by simp
  qed
  have y3: "np_array (map ?py nb) = Inr \<lparr>dims = (length nb, M, 1), vals = map rows (map ?py nb)\<rparr>"
  proof -
    have "np_array (map ?py nb)
        = Inr \<lparr>dims = (length (map ?py nb), M, 1), vals = map rows (map ?py nb)\<rparr>"
    proof (rule np_array_same_shape)
      show "map ?py nb \<noteq> []" using ne by simp
      fix a assume "a \<in> set (map ?py nb)"
      then obtain p where p: "p \<in> set nb" and a: "a = ?py p" by auto
      show "shape2 a = (M, 1)" using leM [OF p] by (simp add: a shape2_def)
    qed
    then show ?thesis by simp
  qed
  have c3: "np_array (map ?pc nb) = Inr \<lparr>dims = (length nb, T, d), vals = map rows (map ?pc nb)\<rparr>"
  proof -
    have "np_array (map ?pc nb)
        = Inr \<lparr>dims = (length (map ?pc nb), T, d), vals = map rows (map ?pc nb)\<rparr>"
    proof (rule np_array_same_shape)
      show "map ?pc nb \<noteq> []" using ne by simp
      fix a assume "a \<in> set (map ?pc nb)"
      then obtain p where p: "p \<in> set nb" and a: "a = ?pc p" by auto
      show "shape2 a = (T, d)" using leT [OF p] cols [OF p] by (simp add: a shape2_def len2_def)
    qed
    then show ?thesis by simp
  qed
  have ty: "transpose21 \<lparr>dims = (length nb, M, 1), vals = map rows (map ?py nb)\<rparr>
      = \<lparr>dims = (length nb, 1, M), vals = map (\<lambda>p. [padded_audio M (fst p)]) nb\<rparr>"
  proof -
    have "map (\<lambda>r. r ! 0) (map (\<lambda>v. [v]) (fst p) @ replicate (M - length (fst p)) [0])
        = padded_audio M (fst p)" if "p \<in> set nb" for p
      using column_of_padded [of "fst p" "M - length (fst p)"] leM [OF that] by simp
    then show ?thesis by (simp add: transpose21_def)
  qed
  have tc: "transpose21 \<lparr>dims = (length nb, T, d), vals = map rows (map ?pc nb)\<rparr>
      = \<lparr>dims = (length nb, d, T),
         vals = map (\<lambda>p. map (\<lambda>j. map (\<lambda>r. r ! j)
                   (rows (snd p) @ replicate (T - len2 (snd p)) (replicate d 0))) [0..<d]) nb\<rparr>"
    by (simp add: transpose21_def o_def)
  show ?thesis
    unfolding call_def ab sum.case prod.case Let_def m1 m2 ys cs y3 c3 ty tc
    by (simp add: case_prod_beta)
qed

lemma align_batch_cols:
  assumes ab: "align_batch col batch g = Inr (nb, g')"
    and cols: "\<forall>p \<in> set batch. ncols (snd p) = d"
  shows "p \<in> set nb \<Longrightarrow> ncols (snd p) = d"
proof -
  assume p: "p \<in> set nb"
  have "ncols (snd p) \<in> set (map (\<lambda>p. ncols (snd p)) nb)" using p by simp
  then have "ncols (snd p) \<in> set (map (\<lambda>p. ncols (snd p)) batch)"
    using align_batch_length_ncols [OF ab] by simp
  then show ?thesis using cols by auto
qed

lemma length_padded_audio: "length x \<le> m \<Longrightarrow> length (padded_audio m x) = m"
  by (simp add: padded_audio_def)

lemma randn_dims: "dims (fst (randn sz g)) = sz"
  by (simp add: randn_def split: prod.splits)

lemma randn_lengths:
  "map (map length) (vals (fst (randn (b, n, d) g))) = replicate b (replicate n d)"
  by (simp add: randn_def o_def map_replicate_const)

lemma two_item_align:
  "align_batch example_collater two_item_batch (const_rng 0 0)
     = Inr (two_item_batch, const_rng 0 0)"
  by (simp add: two_item_batch_def example_collater_def align_def
      assert_ready_for_upsampling_def len2_def)

lemma long_clip_align:
  "align_batch unit_hop_collater long_clip_batch (const_rng 0 0)
     = Inr (long_clip_batch, const_rng 0 0)"
  by (simp add: long_clip_batch_def unit_hop_collater_def align_def
      assert_ready_for_upsampling_def len2_def)

text \<open>
  C8. For a non-empty batch whose pairs the aligner accepts and whose feature
  arrays have one number of columns, the collater returns a result: the noise
  has the shape of the padded target, in its \<^verbatim>\<open>size\<close> and in its entries;
  the last dimension of the conditioning tensor is the greatest length of the
  feature arrays after cropping, and every row of it has that length; the
  length vector has one entry per item, the length of the item's audio after
  cropping and before padding, and none is greater than the padded length.
\<close>

theorem collated_shapes:
  fixes batch :: "('a::zero list \<times> 'a ndarray2) list"
  assumes ab: "align_batch col batch g = Inr (new_batch, g')" and ne: "batch \<noteq> []"
    and cols: "\<forall>p \<in> set batch. ncols (snd p) = d"
  shows "\<exists>z c y g''.
       call col batch g = Inr (z, c, y, map (\<lambda>p. length (fst p)) new_batch, g'')
     \<and> dims z = dims y
     \<and> map (map length) (vals z) = map (map length) (vals y)
     \<and> dims y = (length batch, 1, Max (set (map (\<lambda>p. length (fst p)) new_batch)))
     \<and> dims c = (length batch, d, Max (set (map (\<lambda>p. len2 (snd p)) new_batch)))
     \<and> (\<forall>m \<in> set (vals c). length m = d
           \<and> (\<forall>r \<in> set m. length r = Max (set (map (\<lambda>p. len2 (snd p)) new_batch))))
     \<and> length (map (\<lambda>p. length (fst p)) new_batch) = length batch
     \<and> (\<forall>l \<in> set (map (\<lambda>p. length (fst p)) new_batch).
           l \<le> Max (set (map (\<lambda>p. length (fst p)) new_batch)))"
proof -
  define M where "M = Max ((\<lambda>p. length (fst p)) ` set new_batch)"
  define T where "T = Max ((\<lambda>p. len2 (snd p)) ` set new_batch)"
  have len: "length new_batch = length batch"
    using align_batch_length_ncols [OF ab] by simp
  then have nne: "new_batch \<noteq> []" using ne by auto
  have leM: "length (fst p) \<le> M" if "p \<in> set new_batch" for p
    unfolding M_def using that by (intro Max_ge) auto
  have leT: "len2 (snd p) \<le> T" if "p \<in> set new_batch" for p
    unfolding T_def using that by (intro Max_ge) auto
  have Me: "Max (set (map (\<lambda>p. length (fst p)) new_batch)) = M"
    unfolding M_def by simp
  have Te: "Max (set (map (\<lambda>p. len2 (snd p)) new_batch)) = T"
    unfolding T_def by simp
  let ?z = "fst (randn (length batch, 1, M) g')"
  let ?c = "\<lparr>dims = (length batch, d, T),
            vals = map (\<lambda>p. map (\<lambda>j. map (\<lambda>r. r ! j)
                (rows (snd p) @ replicate (T - len2 (snd p)) (replicate d 0))) [0..<d])
                new_batch\<rparr>"
  let ?y = "\<lparr>dims = (length batch, 1, M),
            vals = map (\<lambda>p. [padded_audio M (fst p)]) new_batch\<rparr>"
  let ?g = "snd (randn (length batch, 1, M) g')"
  have res: "call col batch g = Inr (?z, ?c, ?y, map (\<lambda>p. length (fst p)) new_batch, ?g)"
    using call_result [OF ab nne align_batch_cols [OF ab cols]]
    unfolding len M_def T_def by simp
  have z1: "dims ?z = dims ?y" by (simp add: randn_dims)
  have "map (map length) (vals ?y) = map (\<lambda>p. [M]) new_batch"
    using leM by (simp add: length_padded_audio)
  then have z2: "map (map length) (vals ?z) = map (map length) (vals ?y)"
    by (simp add: randn_lengths map_replicate_const len)
  have y1: "dims ?y = (length batch, 1, M)" by simp
  have c0: "dims ?c = (length batch, d, T)" by simp
  have c1: "\<forall>m \<in> set (vals ?c). length m = d \<and> (\<forall>r \<in> set m. length r = T)"
    using leT by (auto simp: len2_def)
  have l0: "length (map (\<lambda>p. length (fst p)) new_batch) = length batch"
    using len by simp
  have l1: "\<forall>l \<in> set (map (\<lambda>p. length (fst p)) new_batch). l \<le> M"
    using leM by auto
  show ?thesis
    unfolding Me Te
    apply (rule exI [where x = ?z])
    apply (rule exI [where x = ?c])
    apply (rule exI [where x = ?y])
    apply (rule exI [where x = ?g])
    apply (intro conjI)
           apply (rule res)
          apply (rule z1)
         apply (rule z2)
        apply (rule y1)
       apply (rule c0)
      apply (rule c1)
     apply (rule l0)
    apply (rule l1)
    done
qed

theorem collated_shapes_witness:
  "align_batch example_collater two_item_batch (const_rng 0 0)
     = Inr (two_item_batch, const_rng 0 0)
   \<and> (\<exists>z c y g''. call example_collater two_item_batch (const_rng 0 0)
          = Inr (z, c, y, [4, 2], g'')
        \<and> dims z = (2, 1, 4) \<and> dims y = (2, 1, 4) \<and> dims c = (2, 1, 2))"
proof -
  have ne: "two_item_batch \<noteq> []" by (simp add: two_item_batch_def)
  have cols: "\<forall>p \<in> set two_item_batch. ncols (snd p) = 1"
    by (simp add: two_item_batch_def)
  from collated_shapes [OF two_item_align ne cols]
  obtain z c y g'' where
    a: "call example_collater two_item_batch (const_rng 0 0)
          = Inr (z, c, y, map (\<lambda>p. length (fst p)) two_item_batch, g'')"
    and b: "dims z = dims y"
    and c: "dims y = (length two_item_batch, 1,
              Max (set (map (\<lambda>p. length (fst p)) two_item_batch)))"
    and d: "dims c = (length two_item_batch, 1,
              Max (set (map (\<lambda>p. len2 (snd p)) two_item_batch)))"
    by blast
  have "call example_collater two_item_batch (const_rng 0 0) = Inr (z, c, y, [4, 2], g'')"
    using a by (simp add: two_item_batch_def)
  moreover have "dims y = (2, 1, 4)" using c by (simp add: two_item_batch_def)
  moreover have "dims c = (2, 1, 2)" using d by (simp add: two_item_batch_def len2_def)
  ultimately show ?thesis using b two_item_align by auto
qed

text \<open>
  C9. In the result of the collater every audio row is the item's audio after
  cropping followed by zeros up to the greatest such length in the batch, and
  every feature array is extended by zero frames up to the greatest number of
  frames; the length vector holds the lengths before padding. For the two
  uncropped items of 1000 and 1500 samples (hop size 1) both rows have 1500
  entries, the first ends in 500 zeros, and the length vector is [1000, 1500].
\<close>

theorem collated_trailing_zero_padding:
  fixes batch :: "('a::zero list \<times> 'a ndarray2) list"
  assumes ab: "align_batch col batch g = Inr (new_batch, g')" and ne: "batch \<noteq> []"
    and cols: "\<forall>p \<in> set batch. ncols (snd p) = d"
  shows "\<exists>z c y g''.
       call col batch g = Inr (z, c, y, map (\<lambda>p. length (fst p)) new_batch, g'')
     \<and> vals y = map (\<lambda>p. [padded_audio (Max (set (map (\<lambda>p. length (fst p)) new_batch)))
                           (fst p)]) new_batch
     \<and> (\<forall>i < length new_batch.
           length (vals y ! i ! 0) = Max (set (map (\<lambda>p. length (fst p)) new_batch))
         \<and> (\<forall>t < length (fst (new_batch ! i)). vals y ! i ! 0 ! t = fst (new_batch ! i) ! t)
         \<and> (\<forall>t. length (fst (new_batch ! i)) \<le> t
                 \<and> t < Max (set (map (\<lambda>p. length (fst p)) new_batch))
               \<longrightarrow> vals y ! i ! 0 ! t = 0))
     \<and> (\<forall>i < length new_batch. \<forall>j < d.
           \<forall>t < Max (set (map (\<lambda>p. len2 (snd p)) new_batch)).
             vals c ! i ! j ! t
               = (if t < len2 (snd (new_batch ! i)) then rows (snd (new_batch ! i)) ! t ! j
                  else 0))"
proof -
  define M where "M = Max ((\<lambda>p. length (fst p)) ` set new_batch)"
  define T where "T = Max ((\<lambda>p. len2 (snd p)) ` set new_batch)"
  have len: "length new_batch = length batch"
    using align_batch_length_ncols [OF ab] by simp
  then have nne: "new_batch \<noteq> []" using ne by auto
  have leM: "length (fst p) \<le> M" if "p \<in> set new_batch" for p
    unfolding M_def using that by (intro Max_ge) auto
  have leT: "len2 (snd p) \<le> T" if "p \<in> set new_batch" for p
    unfolding T_def using that by (intro Max_ge) auto
  have Me: "Max (set (map (\<lambda>p. length (fst p)) new_batch)) = M"
    unfolding M_def by simp
  have Te: "Max (set (map (\<lambda>p. len2 (snd p)) new_batch)) = T"
    unfolding T_def by simp
  let ?z = "fst (randn (length new_batch, 1, M) g')"
  let ?c = "\<lparr>dims = (length new_batch, d, T),
            vals = map (\<lambda>p. map (\<lambda>j. map (\<lambda>r. r ! j)
                (rows (snd p) @ replicate (T - len2 (snd p)) (replicate d 0))) [0..<d])
                new_batch\<rparr>"
  let ?y = "\<lparr>dims = (length new_batch, 1, M),
            vals = map (\<lambda>p. [padded_audio M (fst p)]) new_batch\<rparr>"
  let ?g = "snd (randn (length new_batch, 1, M) g')"
  have res: "call col batch g = Inr (?z, ?c, ?y, map (\<lambda>p. length (fst p)) new_batch, ?g)"
    using call_result [OF ab nne align_batch_cols [OF ab cols]]
    unfolding M_def T_def by simp
  have y0: "vals ?y = map (\<lambda>p. [padded_audio M (fst p)]) new_batch" by simp
  have y1: "\<forall>i < length new_batch.
           length (vals ?y ! i ! 0) = M
         \<and> (\<forall>t < length (fst (new_batch ! i)). vals ?y ! i ! 0 ! t = fst (new_batch ! i) ! t)
         \<and> (\<forall>t. length (fst (new_batch ! i)) \<le> t \<and> t < M \<longrightarrow> vals ?y ! i ! 0 ! t = 0)"
  proof (intro allI impI)
    fix i assume i: "i < length new_batch"
    then have "new_batch ! i \<in> set new_batch" by simp
    from leM [OF this] show "length (vals ?y ! i ! 0) = M
         \<and> (\<forall>t < length (fst (new_batch ! i)). vals ?y ! i ! 0 ! t = fst (new_batch ! i) ! t)
         \<and> (\<forall>t. length (fst (new_batch ! i)) \<le> t \<and> t < M \<longrightarrow> vals ?y ! i ! 0 ! t = 0)"
      using i by (auto simp: padded_audio_def nth_append)
  qed
  have c1: "\<forall>i < length new_batch. \<forall>j < d. \<forall>t < T.
             vals ?c ! i ! j ! t
               = (if t < len2 (snd (new_batch ! i)) then rows (snd (new_batch ! i)) ! t ! j
                  else 0)"
  proof (intro allI impI)
    fix i j t assume i: "i < length new_batch" and j: "j < d" and t: "t < T"
    from i have "new_batch ! i \<in> set new_batch" by simp
    from leT [OF this] show "vals ?c ! i ! j ! t
               = (if t < len2 (snd (new_batch ! i)) then rows (snd (new_batch ! i)) ! t ! j
                  else 0)"
      using i j t by (auto simp: len2_def nth_append)
  qed
  show ?thesis
    unfolding Me Te
    apply (rule exI [where x = ?z])
    apply (rule exI [where x = ?c])
    apply (rule exI [where x = ?y])
    apply (rule exI [where x = ?g])
    apply (intro conjI)
       apply (rule res)
      apply (rule y0)
     apply (rule y1)
    apply (rule c1)
    done
qed

theorem collated_trailing_zero_padding_witness:
  "collater_init 2000 1 0 = Inr unit_hop_collater
   \<and> align_batch unit_hop_collater long_clip_batch (const_rng 0 0)
       = Inr (long_clip_batch, const_rng 0 0)
   \<and> (\<exists>z c y g''. call unit_hop_collater long_clip_batch (const_rng 0 0)
          = Inr (z, c, y, [1000, 1500], g'')
        \<and> vals y = [[replicate 1000 1 @ replicate 500 0], [replicate 1500 1]])"
proof -
  have ne: "long_clip_batch \<noteq> []" by (simp add: long_clip_batch_def)
  have cols: "\<forall>p \<in> set long_clip_batch. ncols (snd p) = 1"
    by (simp add: long_clip_batch_def)
  from collated_trailing_zero_padding [OF long_clip_align ne cols]
  obtain z c y g'' where
    a: "call unit_hop_collater long_clip_batch (const_rng 0 0)
          = Inr (z, c, y, map (\<lambda>p. length (fst p)) long_clip_batch, g'')"
    and b: "vals y = map (\<lambda>p. [padded_audio
                (Max (set (map (\<lambda>p. length (fst p)) long_clip_batch))) (fst p)])
              long_clip_batch"
    by blast
  have "call unit_hop_collater long_clip_batch (const_rng 0 0)
          = Inr (z, c, y, [1000, 1500], g'')"
    using a by (simp add: long_clip_batch_def)
  moreover have "vals y = [[replicate 1000 1 @ replicate 500 0], [replicate 1500 1]]"
    using b by (simp add: long_clip_batch_def padded_audio_def)
  moreover have "collater_init 2000 1 0 = Inr unit_hop_collater"
    by (simp add: collater_init_def unit_hop_collater_def)
  ultimately show ?thesis using long_clip_align by auto
qed

end
